theory Spec2Isabelle
  imports
    Main
    "HOL-Library.Word"
    "HOL-Library.List_Lexorder"
    "HOL-Library.Char_ord"
    "HOL-Library.Multiset"
begin

unbundle bit_operations_syntax

section \<open>Machine types\<close>

type_synonym size_t = "64 word"
type_synonym uint32 = "32 word"
type_synonym uint16 = "16 word"

section \<open>GL3PlusTexBufferPacked: binding a range of a texture buffer\<close>

text \<open>
  The fields of the class that \<^verbatim>\<open>bindBuffer\<close> reads. \<open>mBufferInterfaceIsGL3Plus\<close> is the
  outcome of the \<^verbatim>\<open>dynamic_cast\<close> in the first assertion, \<open>mVboName\<close> what
  \<^verbatim>\<open>bufferInterface->getVboName()\<close> returns. The last six fields exist only when the
  file is compiled with \<^verbatim>\<open>OGRE_LEGACY_GL_COMPATIBLE\<close>; without it \<open>mUseLegacyTechnique\<close>
  is \<open>False\<close>.
\<close>

record GL3PlusTexBufferPacked =
  mNumElements :: size_t
  mBytesPerElement :: uint32
  mFinalBufferStart :: size_t
  mBufferInterfaceIsGL3Plus :: bool
  mVboName :: uint32
  mTexName :: uint32
  mInternalFormat :: uint32
  mUseLegacyTechnique :: bool
  mMaxTexSize :: size_t
  mInternalNumElements :: size_t
  mInternalNumElemBytes :: size_t
  mOriginFormat :: uint32
  mOriginDataType :: uint32

datatype gl_target = GL_TEXTURE_BUFFER | GL_TEXTURE_2D | GL_PIXEL_UNPACK_BUFFER

text \<open>
  The OpenGL calls the routine issues, in order. \<open>GlActiveTexture n\<close> stands for
  \<^verbatim>\<open>glActiveTexture( GL_TEXTURE0 + n )\<close>; \<open>GlTexBufferRange fmt buf off sz\<close> attaches the
  bytes \<open>[off, off + sz)\<close> of buffer object \<open>buf\<close>; the last argument of
  \<open>GlTexSubImage2D\<close> is the byte offset into the bound pixel-unpack buffer.
\<close>

datatype gl_call =
    GlActiveTexture nat
  | GlBindTexture gl_target uint32
  | GlTexBufferRange uint32 uint32 size_t size_t
  | GlPixelStoreiUnpackAlignment nat
  | GlBindBuffer gl_target uint32
  | GlTexSubImage2D size_t size_t uint32 uint32 size_t

text \<open>
  \<open>AssertionFailed n\<close>: the \<open>n\<close>-th \<^verbatim>\<open>assert\<close> of the routine (in source order) does
  not hold. \<open>DivisionByZero\<close>: an integer division by zero in the legacy path.
\<close>

datatype bind_failure = AssertionFailed nat | DivisionByZero

definition totalSizeBytes :: "GL3PlusTexBufferPacked \<Rightarrow> size_t" where
  "totalSizeBytes b = mNumElements b * ucast (mBytesPerElement b)"

definition bindBuffer ::
  "GL3PlusTexBufferPacked \<Rightarrow> uint16 \<Rightarrow> size_t \<Rightarrow> size_t \<Rightarrow> bind_failure + gl_call list" where
  "bindBuffer b slot offset sizeBytesArg =
    (if \<not> mBufferInterfaceIsGL3Plus b then Inl (AssertionFailed 1)
     else if \<not> offset < totalSizeBytes b - 1 then Inl (AssertionFailed 2)
     else if \<not> offset + sizeBytesArg \<le> totalSizeBytes b then Inl (AssertionFailed 3)
     else
       let sizeBytes = (if sizeBytesArg = 0 then totalSizeBytes b - offset else sizeBytesArg) in
       if mUseLegacyTechnique b then
         (if mInternalNumElemBytes b = 0 then Inl DivisionByZero
          else
            let numModifiedElements = sizeBytes div mInternalNumElemBytes b in
            if sizeBytes mod mInternalNumElemBytes b \<noteq> 0 then Inl (AssertionFailed 4)
            else if mMaxTexSize b = 0 then Inl DivisionByZero
            else
              let texWidth = min numModifiedElements (min (mMaxTexSize b) (mInternalNumElements b));
                  texHeight = (numModifiedElements + mMaxTexSize b - 1) div mMaxTexSize b;
                  misaligned = (mBytesPerElement b AND 4 \<noteq> 4)
              in Inr ((if misaligned then [GlPixelStoreiUnpackAlignment 1] else []) @
                      [GlBindBuffer GL_PIXEL_UNPACK_BUFFER (mVboName b),
                       GlActiveTexture (unat slot),
                       GlBindTexture GL_TEXTURE_2D (mTexName b),
                       GlTexSubImage2D texWidth texHeight (mOriginFormat b) (mOriginDataType b)
                         (mFinalBufferStart b * ucast (mBytesPerElement b) + offset),
                       GlActiveTexture 0] @
                      (if misaligned then [GlPixelStoreiUnpackAlignment 4] else [])))
       else
         Inr [GlActiveTexture (unat slot),
              GlBindTexture GL_TEXTURE_BUFFER (mTexName b),
              GlTexBufferRange (mInternalFormat b) (mVboName b)
                (mFinalBufferStart b * ucast (mBytesPerElement b) + offset) sizeBytes,
              GlActiveTexture 0])"

text \<open>The six stage entry points forward to \<open>bindBuffer\<close> unchanged.\<close>

definition bindBufferVS :: "GL3PlusTexBufferPacked \<Rightarrow> uint16 \<Rightarrow> size_t \<Rightarrow> size_t \<Rightarrow> bind_failure + gl_call list" where
  "bindBufferVS b slot offset sizeBytes = bindBuffer b slot offset sizeBytes"

definition bindBufferPS :: "GL3PlusTexBufferPacked \<Rightarrow> uint16 \<Rightarrow> size_t \<Rightarrow> size_t \<Rightarrow> bind_failure + gl_call list" where
  "bindBufferPS b slot offset sizeBytes = bindBuffer b slot offset sizeBytes"

definition bindBufferGS :: "GL3PlusTexBufferPacked \<Rightarrow> uint16 \<Rightarrow> size_t \<Rightarrow> size_t \<Rightarrow> bind_failure + gl_call list" where
  "bindBufferGS b slot offset sizeBytes = bindBuffer b slot offset sizeBytes"

definition bindBufferHS :: "GL3PlusTexBufferPacked \<Rightarrow> uint16 \<Rightarrow> size_t \<Rightarrow> size_t \<Rightarrow> bind_failure + gl_call list" where
  "bindBufferHS b slot offset sizeBytes = bindBuffer b slot offset sizeBytes"

definition bindBufferDS :: "GL3PlusTexBufferPacked \<Rightarrow> uint16 \<Rightarrow> size_t \<Rightarrow> size_t \<Rightarrow> bind_failure + gl_call list" where
  "bindBufferDS b slot offset sizeBytes = bindBuffer b slot offset sizeBytes"

definition bindBufferCS :: "GL3PlusTexBufferPacked \<Rightarrow> uint16 \<Rightarrow> size_t \<Rightarrow> size_t \<Rightarrow> bind_failure + gl_call list" where
  "bindBufferCS b slot offset sizeBytes = bindBuffer b slot offset sizeBytes"

text \<open>A native (non-legacy) texture buffer of \<open>n\<close> one-byte elements, used as test input.\<close>

definition byteBuffer :: "size_t \<Rightarrow> GL3PlusTexBufferPacked" where
  "byteBuffer n =
    \<lparr>mNumElements = n, mBytesPerElement = 1, mFinalBufferStart = 0,
     mBufferInterfaceIsGL3Plus = True, mVboName = 1, mTexName = 1, mInternalFormat = 0,
     mUseLegacyTechnique = False, mMaxTexSize = 0, mInternalNumElements = 0,
     mInternalNumElemBytes = 0, mOriginFormat = 0, mOriginDataType = 0\<rparr>"

section \<open>SceneFormatImporter: scene nodes\<close>

subsection \<open>The parsed document\<close>

text \<open>
  A parsed rapidjson value. \<open>JUint\<close> holds the numbers for which \<^verbatim>\<open>IsUint()\<close> is true
  (integers that fit 32 unsigned bits); every other number is a \<open>JNumber\<close>. An object keeps
  its members in document order: \<^verbatim>\<open>FindMember\<close> returns the first one of a name.

  rapidjson is a dependency of the importer and not among the source files. Its accessors
  are typed by the kind of value: \<^verbatim>\<open>MemberBegin()\<close>, \<^verbatim>\<open>MemberEnd()\<close> and \<^verbatim>\<open>FindMember()\<close> belong to
  objects and start with \<^verbatim>\<open>RAPIDJSON_ASSERT( IsObject() )\<close>; \<^verbatim>\<open>Size()\<close> and \<^verbatim>\<open>operator[]\<close> with an
  index belong to arrays and start with \<^verbatim>\<open>RAPIDJSON_ASSERT( IsArray() )\<close>. The assertion is
  \<^verbatim>\<open>assert\<close> unless the build redefines it. The importer calls \<^verbatim>\<open>FindMember\<close> only on values
  it has tested with \<^verbatim>\<open>IsObject()\<close>; where it calls an accessor on a value it has not
  tested, the model has a branch for the failed assertion.
\<close>

datatype json =
    JNull
  | JBool bool
  | JUint uint32
  | JNumber int
  | JString string
  | JArray "json list"
  | JObject "(string \<times> json) list"

fun FindMember :: "json \<Rightarrow> string \<Rightarrow> json option" where
  "FindMember (JObject members) name = map_of members name"
| "FindMember _ name = None"

fun IsObject :: "json \<Rightarrow> bool" where
  "IsObject (JObject members) = True"
| "IsObject _ = False"

subsection \<open>Decoding transforms\<close>

text \<open>
  A float is kept as its 32-bit pattern: \<^verbatim>\<open>decodeFloat\<close> reinterprets the bits of the
  unsigned integer. \<open>decodeInto\<close> is the loop shared by the three array decoders: it
  overwrites the first \<open>min (length defaults) (length values)\<close> components, and only those
  whose value \<^verbatim>\<open>IsUint()\<close>.
\<close>

type_synonym float32 = uint32

fun decodeInto :: "float32 list \<Rightarrow> json list \<Rightarrow> float32 list" where
  "decodeInto (d # ds) (v # vs) = (case v of JUint u \<Rightarrow> u | _ \<Rightarrow> d) # decodeInto ds vs"
| "decodeInto ds [] = ds"
| "decodeInto [] vs = []"

definition decodeVector3Array :: "json list \<Rightarrow> float32 list" where
  "decodeVector3Array jsonArray = decodeInto [0, 0, 0] jsonArray"

text \<open>\<^verbatim>\<open>Quaternion::IDENTITY\<close> is \<open>(w, x, y, z) = (1, 0, 0, 0)\<close>; \<open>0x3F800000\<close> is \<open>1.0f\<close>.\<close>

definition decodeQuaternionArray :: "json list \<Rightarrow> float32 list" where
  "decodeQuaternionArray jsonArray = decodeInto [0x3F800000, 0, 0, 0] jsonArray"

datatype node_call =
    SetPosition "float32 list"
  | SetOrientation "float32 list"
  | SetScale "float32 list"
  | SetInheritOrientation bool
  | SetInheritScale bool

text \<open>\<^verbatim>\<open>importNode\<close>: the setters called on the node, in source order.\<close>

definition importNode :: "json \<Rightarrow> node_call list" where
  "importNode nodeValue =
    (case FindMember nodeValue ''position'' of
       Some (JArray a) \<Rightarrow> [SetPosition (decodeVector3Array a)] | _ \<Rightarrow> []) @
    (case FindMember nodeValue ''rotation'' of
       Some (JArray a) \<Rightarrow> [SetOrientation (decodeQuaternionArray a)] | _ \<Rightarrow> []) @
    (case FindMember nodeValue ''scale'' of
       Some (JArray a) \<Rightarrow> [SetScale (decodeVector3Array a)] | _ \<Rightarrow> []) @
    (case FindMember nodeValue ''inherit_orientation'' of
       Some (JBool b) \<Rightarrow> [SetInheritOrientation b] | _ \<Rightarrow> []) @
    (case FindMember nodeValue ''inherit_scale'' of
       Some (JBool b) \<Rightarrow> [SetInheritScale b] | _ \<Rightarrow> [])"

subsection \<open>The scene manager\<close>

datatype SceneMemoryMgrTypes = SCENE_DYNAMIC | SCENE_STATIC

text \<open>
  A \<^verbatim>\<open>SceneNode*\<close>: one of the scene manager's two designated root nodes (one per memory
  manager type), or the \<open>k\<close>-th node created since.
\<close>

datatype SceneNodeRef = RootSceneNode SceneMemoryMgrTypes | NodeId nat

record SceneNodeData =
  nodeType :: SceneMemoryMgrTypes
  nodeParent :: "SceneNodeRef option"

text \<open>
  Modelled from the spec: \<^verbatim>\<open>SceneManager\<close> and \<^verbatim>\<open>SceneNode\<close> (OgreMain) are not among
  the source files. \<^verbatim>\<open>getRootSceneNode\<close> yields the designated root handle of the given
  type, \<^verbatim>\<open>createSceneNode\<close> a fresh independent top-level node, and
  \<^verbatim>\<open>createChildSceneNode\<close> a fresh node attached beneath its receiver. \<open>nodeCalls\<close> records
  the setters \<^verbatim>\<open>importNode\<close> applies, with the node they are applied to.
\<close>

record SceneManager =
  createdNodes :: "SceneNodeData list"
  nodeCalls :: "(SceneNodeRef \<times> node_call) list"

definition getRootSceneNode :: "SceneManager \<Rightarrow> SceneMemoryMgrTypes \<Rightarrow> SceneNodeRef" where
  "getRootSceneNode sm sceneType = RootSceneNode sceneType"

definition createSceneNode ::
  "SceneManager \<Rightarrow> SceneMemoryMgrTypes \<Rightarrow> SceneNodeRef \<times> SceneManager" where
  "createSceneNode sm sceneType =
    (NodeId (length (createdNodes sm)),
     sm\<lparr>createdNodes := createdNodes sm @ [\<lparr>nodeType = sceneType, nodeParent = None\<rparr>]\<rparr>)"

definition createChildSceneNode ::
  "SceneManager \<Rightarrow> SceneNodeRef \<Rightarrow> SceneMemoryMgrTypes \<Rightarrow> SceneNodeRef \<times> SceneManager" where
  "createChildSceneNode sm parentNode sceneType =
    (NodeId (length (createdNodes sm)),
     sm\<lparr>createdNodes := createdNodes sm @ [\<lparr>nodeType = sceneType, nodeParent = Some parentNode\<rparr>]\<rparr>)"

text \<open>Reading the graph back: the parent and the type of a node.\<close>

fun parentOf :: "SceneManager \<Rightarrow> SceneNodeRef \<Rightarrow> SceneNodeRef option" where
  "parentOf sm (RootSceneNode t) = None"
| "parentOf sm (NodeId k) =
     (if k < length (createdNodes sm) then nodeParent (createdNodes sm ! k) else None)"

fun typeOf :: "SceneManager \<Rightarrow> SceneNodeRef \<Rightarrow> SceneMemoryMgrTypes option" where
  "typeOf sm (RootSceneNode t) = Some t"
| "typeOf sm (NodeId k) =
     (if k < length (createdNodes sm) then Some (nodeType (createdNodes sm ! k)) else None)"

subsection \<open>importSceneNode and importSceneNodes\<close>

record SceneFormatImporter =
  mSceneManager :: SceneManager
  mCreatedSceneNodes :: "nat \<rightharpoonup> SceneNodeRef"

text \<open>
  The two \<^verbatim>\<open>OGRE_EXCEPT( Exception::ERR_ITEM_NOT_FOUND, ... )\<close> of \<^verbatim>\<open>importSceneNode\<close>:
  \<open>ParentNotFound nodeIdx parentIdx\<close> (``is child of ... but we could not find it or create
  it. This file is malformed.'') and \<open>NodeObjectMissing nodeIdx\<close> (``Object 'node' must be
  present in a scene_node''); and \<open>RapidjsonAssertion expr\<close>, a failed
  \<^verbatim>\<open>RAPIDJSON_ASSERT( expr )\<close> inside an accessor.
\<close>

datatype import_error = ParentNotFound nat nat | NodeObjectMissing nat | RapidjsonAssertion string

text \<open>The local variables computed at the top of \<^verbatim>\<open>importSceneNode\<close>.\<close>

definition nodeObject :: "json \<Rightarrow> json option" where
  "nodeObject sceneNodeValue =
    (case FindMember sceneNodeValue ''node'' of
       Some (JObject members) \<Rightarrow> Some (JObject members)
     | _ \<Rightarrow> None)"

definition parentIdxOf :: "json \<Rightarrow> nat \<Rightarrow> nat" where
  "parentIdxOf nodeValue nodeIdx =
    (case FindMember nodeValue ''parent_id'' of Some (JUint p) \<Rightarrow> unat p | _ \<Rightarrow> nodeIdx)"

definition sceneNodeTypeOf :: "json \<Rightarrow> SceneMemoryMgrTypes" where
  "sceneNodeTypeOf nodeValue =
    (let isStatic = (case FindMember nodeValue ''is_static'' of Some (JBool b) \<Rightarrow> b | _ \<Rightarrow> False)
     in if isStatic then SCENE_STATIC else SCENE_DYNAMIC)"

text \<open>\<open>is_root_node\<close> is looked up in the scene-node element itself, not in its \<open>node\<close> object.\<close>

definition isRootNodeOf :: "json \<Rightarrow> bool" where
  "isRootNodeOf sceneNodeValue =
    (case FindMember sceneNodeValue ''is_root_node'' of Some (JBool b) \<Rightarrow> b | _ \<Rightarrow> False)"

text \<open>
  The tail of the success branch: \<^verbatim>\<open>importNode( nodeValue, sceneNode )\<close> followed by
  \<^verbatim>\<open>mCreatedSceneNodes[nodeIdx] = sceneNode\<close>.
\<close>

definition registerSceneNode ::
  "json \<Rightarrow> nat \<Rightarrow> SceneNodeRef \<Rightarrow> SceneManager \<Rightarrow> SceneFormatImporter \<Rightarrow> SceneFormatImporter" where
  "registerSceneNode nodeValue nodeIdx sceneNode sm imp =
    imp\<lparr>mSceneManager := sm\<lparr>nodeCalls := nodeCalls sm @ map (Pair sceneNode) (importNode nodeValue)\<rparr>,
        mCreatedSceneNodes := (mCreatedSceneNodes imp)(nodeIdx \<mapsto> sceneNode)\<rparr>"

text \<open>
  \<^verbatim>\<open>importSceneNode( sceneNodeValue, nodeIdx, sceneNodesJson )\<close>. The C++ recursion has no
  bound of its own, so the model counts the nesting depth down from \<open>fuel\<close>: \<open>None\<close> means
  the recursion is deeper than \<open>fuel\<close>, \<open>Some (Inl e)\<close> that exception \<open>e\<close> was raised,
  \<open>Some (Inr (sceneNode, imp'))\<close> a normal return. Indices are natural numbers
  (\<^verbatim>\<open>rapidjson::SizeType\<close> keeps arrays below \<open>2^32\<close> elements, so the \<^verbatim>\<open>uint32\<close> index
  never truncates). \<^verbatim>\<open>sceneNodesJson.Size()\<close> and \<^verbatim>\<open>sceneNodesJson[parentIdx]\<close> are the array
  accessors: they are reached only when the parent is not registered yet.
\<close>

fun importSceneNode ::
  "nat \<Rightarrow> json \<Rightarrow> json \<Rightarrow> nat \<Rightarrow> SceneFormatImporter
    \<Rightarrow> (import_error + SceneNodeRef \<times> SceneFormatImporter) option" where
  "importSceneNode 0 sceneNodesJson sceneNodeValue nodeIdx imp = None"
| "importSceneNode (Suc fuel) sceneNodesJson sceneNodeValue nodeIdx imp =
    (case nodeObject sceneNodeValue of
       None \<Rightarrow> Some (Inl (NodeObjectMissing nodeIdx))
     | Some nodeValue \<Rightarrow>
         let parentIdx = parentIdxOf nodeValue nodeIdx;
             sceneNodeType = sceneNodeTypeOf nodeValue
         in
         if parentIdx \<noteq> nodeIdx then
           (case
              (case mCreatedSceneNodes imp parentIdx of
                 None \<Rightarrow>
                   (case sceneNodesJson of
                      JArray elements \<Rightarrow>
                        if parentIdx < length elements \<and> IsObject (elements ! parentIdx)
                        then importSceneNode fuel sceneNodesJson (elements ! parentIdx) parentIdx imp
                        else Some (Inl (ParentNotFound nodeIdx parentIdx))
                    | _ \<Rightarrow> Some (Inl (RapidjsonAssertion ''IsArray()'')))
               | Some parentNode \<Rightarrow> Some (Inr (parentNode, imp)))
            of
              None \<Rightarrow> None
            | Some (Inl e) \<Rightarrow> Some (Inl e)
            | Some (Inr (parentNode, imp1)) \<Rightarrow>
                (case createChildSceneNode (mSceneManager imp1) parentNode sceneNodeType of
                   (sceneNode, sm) \<Rightarrow>
                     Some (Inr (sceneNode, registerSceneNode nodeValue nodeIdx sceneNode sm imp1))))
         else if isRootNodeOf sceneNodeValue then
           Some (Inr (getRootSceneNode (mSceneManager imp) sceneNodeType,
                      registerSceneNode nodeValue nodeIdx
                        (getRootSceneNode (mSceneManager imp) sceneNodeType) (mSceneManager imp) imp))
         else
           (case createSceneNode (mSceneManager imp) sceneNodeType of
              (sceneNode, sm) \<Rightarrow>
                Some (Inr (sceneNode, registerSceneNode nodeValue nodeIdx sceneNode sm imp))))"

text \<open>
  \<^verbatim>\<open>importSceneNodes( json )\<close>. The loop runs from \<^verbatim>\<open>json.MemberBegin()\<close> to
  \<^verbatim>\<open>json.MemberEnd()\<close>, the member iterators of an object, reads \<^verbatim>\<open>itor->value\<close> and takes
  \<^verbatim>\<open>itor - begin\<close> as the node index. On a value that is not an object the first call fails
  its assertion. \<open>importSceneNodesFrom\<close> is the loop on the members of an object from
  position \<open>nodeIdx\<close> on: \<open>rest\<close> are the members not yet visited. A member whose value is
  an object and whose position is not yet in \<open>mCreatedSceneNodes\<close> is imported; an
  exception ends the loop.
\<close>

fun importSceneNodesFrom ::
  "nat \<Rightarrow> json \<Rightarrow> (string \<times> json) list \<Rightarrow> nat \<Rightarrow> SceneFormatImporter
    \<Rightarrow> (import_error + SceneFormatImporter) option" where
  "importSceneNodesFrom fuel json [] nodeIdx imp = Some (Inr imp)"
| "importSceneNodesFrom fuel json (member # rest) nodeIdx imp =
    (if IsObject (snd member) \<and> mCreatedSceneNodes imp nodeIdx = None then
       (case importSceneNode fuel json (snd member) nodeIdx imp of
          None \<Rightarrow> None
        | Some (Inl e) \<Rightarrow> Some (Inl e)
        | Some (Inr (sceneNode, imp1)) \<Rightarrow>
            importSceneNodesFrom fuel json rest (Suc nodeIdx) imp1)
     else importSceneNodesFrom fuel json rest (Suc nodeIdx) imp)"

definition importSceneNodes ::
  "nat \<Rightarrow> json \<Rightarrow> SceneFormatImporter \<Rightarrow> (import_error + SceneFormatImporter) option" where
  "importSceneNodes fuel json imp =
    (case json of
       JObject members \<Rightarrow> importSceneNodesFrom fuel json members 0 imp
     | _ \<Rightarrow> Some (Inl (RapidjsonAssertion ''IsObject()'')))"

text \<open>
  The scene-node step of \<^verbatim>\<open>importScene\<close> on the parsed document \<open>d\<close>:
  \<^verbatim>\<open>d.FindMember( "scene_nodes" )\<close>, and if the member exists and \<^verbatim>\<open>IsArray()\<close>, the call
  \<^verbatim>\<open>importSceneNodes( itor->value )\<close>. This is the only call of \<^verbatim>\<open>importSceneNodes\<close>, so its
  argument is always an array.
\<close>

definition importSceneNodesOfDocument ::
  "nat \<Rightarrow> json \<Rightarrow> SceneFormatImporter \<Rightarrow> (import_error + SceneFormatImporter) option" where
  "importSceneNodesOfDocument fuel d imp =
    (case d of
       JObject members \<Rightarrow>
         (case FindMember d ''scene_nodes'' of
            Some (JArray elements) \<Rightarrow> importSceneNodes fuel (JArray elements) imp
          | _ \<Rightarrow> Some (Inr imp))
     | _ \<Rightarrow> Some (Inl (RapidjsonAssertion ''IsObject()'')))"

text \<open>A new importer on an empty scene.\<close>

definition newImporter :: SceneFormatImporter where
  "newImporter =
    \<lparr>mSceneManager = \<lparr>createdNodes = [], nodeCalls = []\<rparr>, mCreatedSceneNodes = Map.empty\<rparr>"

subsection \<open>Invariant of the created-node map\<close>

text \<open>
  \<open>childLinked nodes imp i\<close>: if element \<open>i\<close> declares a parent other than itself, then its
  created scene node is a node made by \<^verbatim>\<open>createChildSceneNode\<close> whose type is the element's
  own and whose parent is the scene node registered for the declared parent index.
\<close>

definition childLinked :: "json list \<Rightarrow> SceneFormatImporter \<Rightarrow> nat \<Rightarrow> bool" where
  "childLinked nodes imp i \<longleftrightarrow>
    (\<forall>nv. nodeObject (nodes ! i) = Some nv \<longrightarrow> parentIdxOf nv i \<noteq> i \<longrightarrow>
      (\<exists>k hj. mCreatedSceneNodes imp i = Some (NodeId k)
        \<and> k < length (createdNodes (mSceneManager imp))
        \<and> mCreatedSceneNodes imp (parentIdxOf nv i) = Some hj
        \<and> createdNodes (mSceneManager imp) ! k =
            \<lparr>nodeType = sceneNodeTypeOf nv, nodeParent = Some hj\<rparr>))"

text \<open>
  \<open>importerInv n0 nodes imp\<close>, where \<open>n0\<close> scene nodes existed before the import: every
  registered index is linked to its declared parent, and the scene nodes created since are
  in one-to-one correspondence with the registered indices that hold a created node.
\<close>

definition importerInv :: "nat \<Rightarrow> json list \<Rightarrow> SceneFormatImporter \<Rightarrow> bool" where
  "importerInv n0 nodes imp \<longleftrightarrow>
    n0 \<le> length (createdNodes (mSceneManager imp))
    \<and> (\<forall>i. mCreatedSceneNodes imp i \<noteq> None \<longrightarrow> childLinked nodes imp i)
    \<and> (\<forall>i k. mCreatedSceneNodes imp i = Some (NodeId k) \<longrightarrow>
          n0 \<le> k \<and> k < length (createdNodes (mSceneManager imp)))
    \<and> (\<forall>k. n0 \<le> k \<and> k < length (createdNodes (mSceneManager imp)) \<longrightarrow>
          (\<exists>i. mCreatedSceneNodes imp i = Some (NodeId k)))
    \<and> (\<forall>i i' k. mCreatedSceneNodes imp i = Some (NodeId k) \<longrightarrow>
          mCreatedSceneNodes imp i' = Some (NodeId k) \<longrightarrow> i = i')"

subsection \<open>Example inputs\<close>

text \<open>
  The \<open>scene_nodes\<close> array of the specification's example, with \<open>is_root_node\<close> inside
  the \<open>node\<close> object; the same array with \<open>is_root_node\<close> as a member of the scene-node
  element; two elements that name each other as parent; and a three-element array with a
  forward and a backward reference, and the document that holds it.
\<close>

definition specExampleNodes :: "json list" where
  "specExampleNodes =
     [JObject [(''node'', JObject [(''parent_id'', JUint 1)])],
      JObject [(''node'', JObject [(''parent_id'', JUint 1), (''is_root_node'', JBool True)])]]"

definition rootFlagNodes :: "json list" where
  "rootFlagNodes =
     [JObject [(''node'', JObject [(''parent_id'', JUint 1)])],
      JObject [(''node'', JObject [(''parent_id'', JUint 1)]), (''is_root_node'', JBool True)]]"

definition cyclicSceneNodes :: "json list" where
  "cyclicSceneNodes =
     [JObject [(''node'', JObject [(''parent_id'', JUint 1)])],
      JObject [(''node'', JObject [(''parent_id'', JUint 0)])]]"

definition forwardBackwardNodes :: "json list" where
  "forwardBackwardNodes =
     [JObject [(''node'', JObject [(''parent_id'', JUint 2), (''is_static'', JBool True)])],
      JObject [(''node'', JObject [(''parent_id'', JUint 0)])],
      JObject [(''node'', JObject [(''parent_id'', JUint 2)]), (''is_root_node'', JBool True)]]"

definition forwardBackwardDocument :: json where
  "forwardBackwardDocument = JObject [(''scene_nodes'', JArray forwardBackwardNodes)]"

section \<open>HlmsCompute: compiling and caching compute pipelines\<close>

subsection \<open>Property sets\<close>

type_synonym IdString = string
type_synonym int32 = "32 word"
type_synonym HlmsPropertyVec = "(IdString \<times> int32) list"

text \<open>
  Modelled from the spec: \<^verbatim>\<open>Hlms::setProperty\<close> and \<^verbatim>\<open>Hlms::getProperty\<close> (OgreHlms.cpp)
  are not among the source files. The spec calls the property set an ordered mapping from
  identifiers to 32-bit integers without duplicate keys, in which unset identifiers read as
  zero: the vector is kept sorted by key, setting a key inserts it at its place or
  overwrites its value, and reading returns the stored value or \<open>0\<close>. Identifiers are
  compared by content.
\<close>

fun setPropertyVec :: "IdString \<Rightarrow> int32 \<Rightarrow> HlmsPropertyVec \<Rightarrow> HlmsPropertyVec" where
  "setPropertyVec key v [] = [(key, v)]"
| "setPropertyVec key v ((k, w) # ps) =
     (if key < k then (key, v) # (k, w) # ps
      else if key = k then (key, v) # ps
      else (k, w) # setPropertyVec key v ps)"

definition getPropertyVec :: "IdString \<Rightarrow> HlmsPropertyVec \<Rightarrow> int32" where
  "getPropertyVec key ps = (case map_of ps key of Some v \<Rightarrow> v | None \<Rightarrow> 0)"

text \<open>The property vector obtained from a list of assignments, applied left to right.\<close>

definition propertiesOf :: "(IdString \<times> int32) list \<Rightarrow> HlmsPropertyVec" where
  "propertiesOf assignments = foldl (\<lambda>ps (k, v). setPropertyVec k v ps) [] assignments"

text \<open>The \<^verbatim>\<open>ComputeProperty\<close> identifiers, as defined at the top of OgreHlmsCompute.cpp.\<close>

definition ThreadsPerGroupX :: IdString where "ThreadsPerGroupX = ''threads_per_group_x''"
definition ThreadsPerGroupY :: IdString where "ThreadsPerGroupY = ''threads_per_group_y''"
definition ThreadsPerGroupZ :: IdString where "ThreadsPerGroupZ = ''threads_per_group_z''"
definition NumThreadGroupsX :: IdString where "NumThreadGroupsX = ''num_thread_groups_x''"
definition NumThreadGroupsY :: IdString where "NumThreadGroupsY = ''num_thread_groups_y''"
definition NumThreadGroupsZ :: IdString where "NumThreadGroupsZ = ''num_thread_groups_z''"

text \<open>
  Modelled from the spec: the \<^verbatim>\<open>HlmsBaseProp\<close> identifiers are declared in OgreHlms.cpp,
  which is not among the source files. The spec names the ``job-local disable flag''; the
  strings below only have to be distinct identifiers.
\<close>

definition DisableStage :: IdString where "DisableStage = ''hlms_disable_stage''"
definition GL3Plus :: IdString where "GL3Plus = ''GL3+''"
definition HighQuality :: IdString where "HighQuality = ''hlms_high_quality''"
definition Skeleton :: IdString where "Skeleton = ''hlms_skeleton''"
definition Pose :: IdString where "Pose = ''hlms_pose''"

subsection \<open>Jobs, pipeline state objects, programs\<close>

record ConstBufferSlot =
  cb_slotIdx :: nat
  cb_buffer :: nat

text \<open>A texture or UAV slot; \<open>ts_buffer = None\<close> is the null buffer pointer.\<close>

record TextureSlot =
  ts_buffer :: "nat option"
  ts_slotIdx :: nat
  ts_offset :: size_t
  ts_sizeBytes :: size_t
  ts_texture :: nat
  ts_samplerblock :: nat
  ts_access :: nat
  ts_mipmapLevel :: nat
  ts_textureArrayIndex :: nat
  ts_pixelFormat :: nat

text \<open>
  The fields of \<^verbatim>\<open>HlmsComputeJob\<close> that HlmsCompute touches. \<open>mPsoCacheHash\<close> is a
  \<^verbatim>\<open>size_t\<close>, kept as a natural number; the value \<^verbatim>\<open>-1\<close> assigned to it is
  \<open>2^64 - 1\<close>. The job's own property vector is \<open>job_mSetProperties\<close> (in the source both
  the job and \<^verbatim>\<open>Hlms\<close> call theirs \<^verbatim>\<open>mSetProperties\<close>).
\<close>

record HlmsComputeJob =
  mSourceFilename :: string
  mIncludedPieceFiles :: "string list"
  job_mSetProperties :: HlmsPropertyVec
  mPsoCacheHash :: nat
  mConstBuffers :: "ConstBufferSlot list"
  mTextureSlots :: "TextureSlot list"
  mUavSlots :: "TextureSlot list"

definition invalidPsoCacheHash :: nat where
  "invalidPsoCacheHash = 2 ^ 64 - 1"

text \<open>\<open>computeShader = None\<close> is the null program pointer; a program is named by its index in
  the list of programs created so far.\<close>

record HlmsComputePso =
  computeShader :: "nat option"
  mThreadsPerGroup :: "uint32 list"
  mNumThreadGroups :: "uint32 list"

record ComputePsoCache =
  job :: nat
  setProperties :: HlmsPropertyVec
  pso :: HlmsComputePso

record HighLevelGpuProgram =
  gp_name :: string
  gp_language :: string
  gp_source :: string
  gp_debugFilename :: string
  gp_parameters :: "(string \<times> string) list"
  gp_skeletalAnimationIncluded :: bool
  gp_poseAnimationIncluded :: int32
  gp_loaded :: bool

text \<open>What HlmsCompute does to its collaborators (render system, log, debug files), in order.\<close>

datatype effect =
    HlmsComputePipelineStateObjectCreated HlmsComputePso
  | HlmsComputePipelineStateObjectDestroyed HlmsComputePso
  | HlmsClearShaderCache
  | LogMessage string
  | DebugFileWritten string string
  | BindConstBufferCS nat nat
  | BindTexBufferCS nat nat size_t size_t
  | SetTexture nat nat
  | SetHlmsSamplerblock nat nat
  | BindUavBufferCS nat nat size_t size_t
  | BindTextureUavCS nat nat nat nat nat nat
  | SetComputePso HlmsComputePso
  | Dispatch HlmsComputePso

type_synonym Hash = "128 word"
type_synonym PiecesMap = "(IdString \<times> string) list"

text \<open>
  The state of an \<^verbatim>\<open>HlmsCompute\<close> together with what it reaches through pointers: \<open>jobs\<close>
  maps a job pointer to the job, \<open>programs\<close> are the GPU programs created through the
  program manager, \<open>effects\<close> the calls made so far.
\<close>

record HlmsCompute =
  mSetProperties :: HlmsPropertyVec
  mPieces :: PiecesMap
  mRsSpecificExtensions :: "IdString list"
  mShaderProfile :: string
  mShaderFileExt :: string
  mHighQuality :: bool
  mDebugOutput :: bool
  mOutputPath :: string
  mComputeShaderTarget :: "string option"
  mCompiledShaderCache :: "Hash \<rightharpoonup> nat"
  mComputeShaderCache :: "ComputePsoCache list"
  jobs :: "nat \<Rightarrow> HlmsComputeJob"
  programs :: "HighLevelGpuProgram list"
  effects :: "effect list"

subsection \<open>Code outside the source files\<close>

text \<open>
  A template pass (\<^verbatim>\<open>parseMath\<close>, \<^verbatim>\<open>parseForEach\<close>, ...) reads an input buffer and the
  current properties and pieces, and yields the syntax-error flag, the output buffer and
  the properties and pieces it leaves behind.
\<close>

type_synonym parser =
  "HlmsPropertyVec \<Rightarrow> PiecesMap \<Rightarrow> string \<Rightarrow> bool \<times> string \<times> HlmsPropertyVec \<times> PiecesMap"

text \<open>
  The functions HlmsCompute calls that are defined elsewhere, taken as parameters: the
  template passes of \<^verbatim>\<open>Hlms\<close>, \<^verbatim>\<open>ResourceGroupManager::openResource\<close> followed by reading
  the whole stream (\<open>None\<close>: the resource cannot be opened), the 128-bit hash with its
  seed, \<^verbatim>\<open>StringConverter::toString\<close>, and \<^verbatim>\<open>HlmsComputeJob::_updateAutoProperties\<close>.
\<close>

record HlmsEnv =
  parseMath :: parser
  parseForEach :: parser
  parseProperties :: parser
  collectPieces :: parser
  insertPieces :: parser
  parseCounter :: parser
  openResource :: "string \<Rightarrow> string option"
  hash128 :: "string \<Rightarrow> Hash"
  toString :: "uint32 \<Rightarrow> string"
  updateAutoProperties :: "HlmsComputeJob \<Rightarrow> HlmsComputeJob"

text \<open>
  How a call ends other than by returning: \<open>ResourceNotFound\<close> is the exception of
  \<^verbatim>\<open>openResource\<close>, \<open>ERR_INVALIDPARAMS\<close> the \<^verbatim>\<open>OGRE_EXCEPT\<close> of \<^verbatim>\<open>compileShader\<close>, and
  \<open>EndIteratorDereferenced\<close> marks the read of \<^verbatim>\<open>itor->second\<close> at
  \<^verbatim>\<open>mCompiledShaderCache.end()\<close>, whose behaviour C++ leaves undefined. A failure carries
  the state reached when it happened.
\<close>

datatype hlms_failure = ResourceNotFound string | ERR_INVALIDPARAMS | EndIteratorDereferenced

type_synonym 'a hlms_result = "hlms_failure \<times> HlmsCompute + 'a \<times> HlmsCompute"

definition setProperty :: "IdString \<Rightarrow> int32 \<Rightarrow> HlmsCompute \<Rightarrow> HlmsCompute" where
  "setProperty key v s = s\<lparr>mSetProperties := setPropertyVec key v (mSetProperties s)\<rparr>"

definition getProperty :: "HlmsCompute \<Rightarrow> IdString \<Rightarrow> int32" where
  "getProperty s key = getPropertyVec key (mSetProperties s)"

definition runParser :: "parser \<Rightarrow> string \<Rightarrow> HlmsCompute \<Rightarrow> bool \<times> string \<times> HlmsCompute" where
  "runParser p inBuffer s =
    (case p (mSetProperties s) (mPieces s) inBuffer of
       (syntaxError, outBuffer, props, pieces) \<Rightarrow>
         (syntaxError, outBuffer, s\<lparr>mSetProperties := props, mPieces := pieces\<rparr>))"

text \<open>\<^verbatim>\<open>str.find( sub ) != String::npos\<close>.\<close>

definition containsString :: "string \<Rightarrow> string \<Rightarrow> bool" where
  "containsString str sub =
    list_ex (\<lambda>i. take (length sub) (drop i str) = sub) [0 ..< Suc (length str)]"

subsection \<open>compileShader\<close>

fun processPieces :: "HlmsEnv \<Rightarrow> string list \<Rightarrow> HlmsCompute \<Rightarrow> hlms_failure \<times> HlmsCompute + HlmsCompute" where
  "processPieces env [] s = Inr s"
| "processPieces env (pieceFile # pieceFiles) s =
    (if containsString pieceFile (mShaderFileExt s) then
       (case openResource env pieceFile of
          None \<Rightarrow> Inl (ResourceNotFound pieceFile, s)
        | Some inString \<Rightarrow>
            (case runParser (parseMath env) inString s of (e1, outString1, s1) \<Rightarrow>
             case runParser (parseForEach env) outString1 s1 of (e2, inString2, s2) \<Rightarrow>
             case runParser (parseProperties env) inString2 s2 of (e3, outString3, s3) \<Rightarrow>
             case runParser (collectPieces env) outString3 s3 of (e4, inString4, s4) \<Rightarrow>
             case runParser (parseCounter env) inString4 s4 of (e5, outString5, s5) \<Rightarrow>
               processPieces env pieceFiles s5))
     else processPieces env pieceFiles s)"

text \<open>
  The \<^verbatim>\<open>while\<close> loop of \<^verbatim>\<open>compileShader\<close> that collects and inserts pieces until no marker
  is left or a pass reports a syntax error. Nothing in the loop bounds the number of
  rounds, so the model counts them down from \<open>fuel\<close>; \<open>None\<close>: more rounds are needed.
\<close>

fun insertPiecesLoop ::
  "HlmsEnv \<Rightarrow> nat \<Rightarrow> bool \<Rightarrow> string \<Rightarrow> string \<Rightarrow> HlmsCompute
    \<Rightarrow> (bool \<times> string \<times> string \<times> HlmsCompute) option" where
  "insertPiecesLoop env 0 syntaxError inString outString s =
    (if \<not> syntaxError \<and> (containsString outString ''@piece'' \<or> containsString outString ''@insertpiece'')
     then None else Some (syntaxError, inString, outString, s))"
| "insertPiecesLoop env (Suc fuel) syntaxError inString outString s =
    (if \<not> syntaxError \<and> (containsString outString ''@piece'' \<or> containsString outString ''@insertpiece'')
     then
       (case runParser (collectPieces env) outString s of (e1, inString1, s1) \<Rightarrow>
        case runParser (insertPieces env) inString1 s1 of (e2, outString2, s2) \<Rightarrow>
          insertPiecesLoop env fuel (syntaxError \<or> e1 \<or> e2) inString1 outString2 s2)
     else Some (syntaxError, inString, outString, s))"

text \<open>
  \<^verbatim>\<open>compileShader\<close> up to and including the debug output: the result is the expanded
  shader text and the debug file name.
\<close>

definition generateShader ::
  "HlmsEnv \<Rightarrow> nat \<Rightarrow> HlmsComputeJob \<Rightarrow> uint32 \<Rightarrow> HlmsCompute \<Rightarrow> (string \<times> string) hlms_result option" where
  "generateShader env fuel jb finalHash s =
    (let s1 = foldl (\<lambda>st ext. setProperty ext 1 st) s (mRsSpecificExtensions s);
         s2 = s1\<lparr>mPieces := []\<rparr>
     in case openResource env (mSourceFilename jb) of
          None \<Rightarrow> Some (Inl (ResourceNotFound (mSourceFilename jb), s2))
        | Some fileText \<Rightarrow>
            let s3 = (if mShaderProfile s2 = ''glsl'' then setProperty GL3Plus 330 s2 else s2);
                s4 = setProperty HighQuality (if mHighQuality s3 then 1 else 0) s3
            in case processPieces env (mIncludedPieceFiles jb) s4 of
                 Inl failure \<Rightarrow> Some (Inl failure)
               | Inr s5 \<Rightarrow>
                   (case runParser (parseMath env) fileText s5 of (e1, outString1, s6) \<Rightarrow>
                    case runParser (parseForEach env) outString1 s6 of (e2, inString2, s7) \<Rightarrow>
                    case runParser (parseProperties env) inString2 s7 of (e3, outString3, s8) \<Rightarrow>
                    case insertPiecesLoop env fuel (e1 \<or> e2 \<or> e3) inString2 outString3 s8 of
                      None \<Rightarrow> None
                    | Some (e4, inString4, outString4, s9) \<Rightarrow>
                        (case runParser (parseCounter env) outString4 s9 of (e5, inString5, s10) \<Rightarrow>
                           let syntaxError = (e4 \<or> e5);
                               outString = inString5;
                               s11 = (if syntaxError
                                      then s10\<lparr>effects := effects s10 @
                                             [LogMessage (''There were HLMS syntax errors while parsing '' @
                                                toString env finalHash @ mSourceFilename jb @ mShaderFileExt s10)]\<rparr>
                                      else s10);
                               debugFilenameOutput =
                                 (if mDebugOutput s11
                                  then mOutputPath s11 @ ''./'' @ toString env finalHash @
                                       mSourceFilename jb @ mShaderFileExt s11
                                  else []);
                               s12 = (if mDebugOutput s11
                                      then s11\<lparr>effects := effects s11 @
                                             [DebugFileWritten debugFilenameOutput outString]\<rparr>
                                      else s11)
                           in Some (Inr ((outString, debugFilenameOutput), s12)))))"

text \<open>
  The block guarded by \<^verbatim>\<open>!getProperty( HlmsBaseProp::DisableStage )\<close>: the look-up in
  \<open>mCompiledShaderCache\<close> and its two branches, as written. When the hash is not in the
  cache (\<^verbatim>\<open>itor == mCompiledShaderCache.end()\<close>) the source reads \<^verbatim>\<open>itor->second\<close>; when it is
  in the cache the source creates, loads and registers a new program.
\<close>

definition createProgram ::
  "HlmsEnv \<Rightarrow> HlmsComputeJob \<Rightarrow> uint32 \<Rightarrow> string \<Rightarrow> string \<Rightarrow> HlmsCompute \<Rightarrow> HighLevelGpuProgram" where
  "createProgram env jb finalHash outString debugFilenameOutput s =
    \<lparr>gp_name = toString env finalHash @ mSourceFilename jb,
     gp_language = mShaderProfile s,
     gp_source = outString,
     gp_debugFilename = debugFilenameOutput,
     gp_parameters = (case mComputeShaderTarget s of
                        None \<Rightarrow> []
                      | Some target \<Rightarrow> [(''target'', target), (''entry_point'', ''main'')]),
     gp_skeletalAnimationIncluded = (getProperty s Skeleton \<noteq> 0),
     gp_poseAnimationIncluded = getProperty s Pose,
     gp_loaded = True\<rparr>"

definition lookupOrCreateProgram ::
  "HlmsEnv \<Rightarrow> HlmsComputeJob \<Rightarrow> uint32 \<Rightarrow> string \<Rightarrow> string \<Rightarrow> HlmsCompute \<Rightarrow> (nat option) hlms_result" where
  "lookupOrCreateProgram env jb finalHash outString debugFilenameOutput s =
    (if getProperty s DisableStage = 0 then
       (let hashVal = hash128 env outString in
        case mCompiledShaderCache s hashVal of
          None \<Rightarrow> Inl (EndIteratorDereferenced, s)
        | Some cached \<Rightarrow>
            let gp = createProgram env jb finalHash outString debugFilenameOutput s;
                shader = length (programs s)
            in Inr (Some shader,
                    s\<lparr>programs := programs s @ [gp],
                      mCompiledShaderCache := (mCompiledShaderCache s)(hashVal \<mapsto> shader)\<rparr>))
     else Inr (None, s))"

text \<open>The rest of \<^verbatim>\<open>compileShader\<close>: resetting the disable flag and building the PSO.\<close>

definition finishPso :: "nat option \<Rightarrow> HlmsCompute \<Rightarrow> HlmsComputePso hlms_result" where
  "finishPso shader s =
    (let s1 = setProperty DisableStage 0 s;
         pso = \<lparr>computeShader = shader,
                mThreadsPerGroup = [getProperty s1 ThreadsPerGroupX,
                                    getProperty s1 ThreadsPerGroupY,
                                    getProperty s1 ThreadsPerGroupZ],
                mNumThreadGroups = [getProperty s1 NumThreadGroupsX,
                                    getProperty s1 NumThreadGroupsY,
                                    getProperty s1 NumThreadGroupsZ]\<rparr>
     in if mThreadsPerGroup pso ! 0 * mThreadsPerGroup pso ! 1 * mThreadsPerGroup pso ! 2 = 0
           \<or> mNumThreadGroups pso ! 0 * mNumThreadGroups pso ! 1 * mNumThreadGroups pso ! 2 = 0
        then Inl (ERR_INVALIDPARAMS, s1)
        else Inr (pso, s1\<lparr>effects := effects s1 @ [HlmsComputePipelineStateObjectCreated pso]\<rparr>))"

definition compileShader ::
  "HlmsEnv \<Rightarrow> nat \<Rightarrow> nat \<Rightarrow> uint32 \<Rightarrow> HlmsCompute \<Rightarrow> HlmsComputePso hlms_result option" where
  "compileShader env fuel jobPtr finalHash s =
    (case generateShader env fuel (jobs s jobPtr) finalHash s of
       None \<Rightarrow> None
     | Some (Inl failure) \<Rightarrow> Some (Inl failure)
     | Some (Inr ((outString, debugFilenameOutput), s1)) \<Rightarrow>
         (case lookupOrCreateProgram env (jobs s1 jobPtr) finalHash outString debugFilenameOutput s1 of
            Inl failure \<Rightarrow> Some (Inl failure)
          | Inr (shader, s2) \<Rightarrow> Some (finishPso shader s2)))"

subsection \<open>clearShaderCache\<close>

text \<open>
  The loop over \<open>mComputeShaderCache\<close>: each entry's PSO is handed to the render system's
  \<^verbatim>\<open>_hlmsComputePipelineStateObjectDestroyed\<close> and the job the entry points to gets
  \<^verbatim>\<open>mPsoCacheHash = -1\<close>.
\<close>

fun destroyCachedPsos :: "ComputePsoCache list \<Rightarrow> HlmsCompute \<Rightarrow> HlmsCompute" where
  "destroyCachedPsos [] s = s"
| "destroyCachedPsos (entry # entries) s =
    destroyCachedPsos entries
      (s\<lparr>effects := effects s @ [HlmsComputePipelineStateObjectDestroyed (pso entry)],
         jobs := (jobs s)(job entry := (jobs s (job entry))\<lparr>mPsoCacheHash := invalidPsoCacheHash\<rparr>)\<rparr>)"

text \<open>
  \<^verbatim>\<open>Hlms::clearShaderCache\<close> of the base class is not among the source files; the call is
  recorded as the effect \<open>HlmsClearShaderCache\<close>.
\<close>

definition clearShaderCache :: "HlmsCompute \<Rightarrow> HlmsCompute" where
  "clearShaderCache s =
    (let s1 = destroyCachedPsos (mComputeShaderCache s) s;
         s2 = s1\<lparr>effects := effects s1 @ [HlmsClearShaderCache]\<rparr>
     in s2\<lparr>mCompiledShaderCache := Map.empty, mComputeShaderCache := []\<rparr>)"

subsection \<open>dispatch\<close>

text \<open>
  Modelled from the spec: \<^verbatim>\<open>ComputePsoCache::operator==\<close> is declared in OgreHlmsCompute.h,
  which is not among the source files. The spec defines equality of cache entries by
  property-set content, not by identity and not by job pointer.
\<close>

definition psoCacheEqual :: "ComputePsoCache \<Rightarrow> ComputePsoCache \<Rightarrow> bool" where
  "psoCacheEqual a b \<longleftrightarrow> setProperties a = setProperties b"

text \<open>\<^verbatim>\<open>std::find\<close> over the cache: the position of the first equal entry, \<open>None\<close> for
  \<^verbatim>\<open>end()\<close>.\<close>

fun findPsoCache :: "ComputePsoCache list \<Rightarrow> ComputePsoCache \<Rightarrow> nat option" where
  "findPsoCache [] key = None"
| "findPsoCache (entry # entries) key =
    (if psoCacheEqual entry key then Some 0 else map_option Suc (findPsoCache entries key))"

text \<open>The PSO member of a default-constructed \<^verbatim>\<open>ComputePsoCache\<close>; it is never read before
  it is assigned.\<close>

definition unsetPso :: HlmsComputePso where
  "unsetPso = \<lparr>computeShader = None, mThreadsPerGroup = [0, 0, 0], mNumThreadGroups = [0, 0, 0]\<rparr>"

definition updateJob :: "nat \<Rightarrow> (HlmsComputeJob \<Rightarrow> HlmsComputeJob) \<Rightarrow> HlmsCompute \<Rightarrow> HlmsCompute" where
  "updateJob jobPtr f s = s\<lparr>jobs := (jobs s)(jobPtr := f (jobs s jobPtr))\<rparr>"

text \<open>
  The first part of \<^verbatim>\<open>dispatch\<close>: making \<open>mPsoCacheHash\<close> of the job point at a cache entry.
  The two \<^verbatim>\<open>swap\<close>s are written out: after the first the local \<open>psoCache\<close> holds the job's
  properties and the job holds the empty vector; the second is undone at the start of
  either branch.
\<close>

definition ensurePso :: "HlmsEnv \<Rightarrow> nat \<Rightarrow> nat \<Rightarrow> HlmsCompute \<Rightarrow> unit hlms_result option" where
  "ensurePso env fuel jobPtr s =
    (if mPsoCacheHash (jobs s jobPtr) \<ge> length (mComputeShaderCache s) then
       let s1 = updateJob jobPtr (updateAutoProperties env) s;
           psoCache0 = \<lparr>job = jobPtr, setProperties = [], pso = unsetPso\<rparr>;
           psoCache = psoCache0\<lparr>setProperties := job_mSetProperties (jobs s1 jobPtr)\<rparr>;
           s2 = updateJob jobPtr (\<lambda>j. j\<lparr>job_mSetProperties := setProperties psoCache0\<rparr>) s1
       in case findPsoCache (mComputeShaderCache s2) psoCache of
            None \<Rightarrow>
              let psoCache' = psoCache\<lparr>setProperties := job_mSetProperties (jobs s2 jobPtr)\<rparr>;
                  s3 = updateJob jobPtr (\<lambda>j. j\<lparr>job_mSetProperties := setProperties psoCache\<rparr>) s2;
                  s4 = s3\<lparr>mSetProperties := job_mSetProperties (jobs s3 jobPtr)\<rparr>
              in (case compileShader env fuel jobPtr (of_nat (length (mComputeShaderCache s4))) s4 of
                    None \<Rightarrow> None
                  | Some (Inl failure) \<Rightarrow> Some (Inl failure)
                  | Some (Inr (compiled, s5)) \<Rightarrow>
                      let s6 = s5\<lparr>mComputeShaderCache :=
                                   mComputeShaderCache s5 @ [psoCache'\<lparr>pso := compiled\<rparr>]\<rparr>;
                          s7 = s6\<lparr>mComputeShaderCache :=
                                   (mComputeShaderCache s6)
                                     [length (mComputeShaderCache s6) - 1 :=
                                        (last (mComputeShaderCache s6))
                                          \<lparr>setProperties := job_mSetProperties (jobs s6 jobPtr)\<rparr>]\<rparr>
                      in Some (Inr ((),
                           updateJob jobPtr
                             (\<lambda>j. j\<lparr>mPsoCacheHash := length (mComputeShaderCache s7) - 1\<rparr>) s7)))
          | Some index \<Rightarrow>
              let s3 = updateJob jobPtr (\<lambda>j. j\<lparr>job_mSetProperties := setProperties psoCache\<rparr>) s2
              in Some (Inr ((), updateJob jobPtr (\<lambda>j. j\<lparr>mPsoCacheHash := index\<rparr>) s3))
     else Some (Inr ((), s)))"

text \<open>The second part: the bindings, in source order, then the PSO and the dispatch call.\<close>

definition bindConstBuffers :: "ConstBufferSlot list \<Rightarrow> effect list" where
  "bindConstBuffers slots = map (\<lambda>c. BindConstBufferCS (cb_buffer c) (cb_slotIdx c)) slots"

definition bindTextureSlots :: "TextureSlot list \<Rightarrow> effect list" where
  "bindTextureSlots slots =
    concat (map (\<lambda>t. case ts_buffer t of
                        Some buffer \<Rightarrow> [BindTexBufferCS buffer (ts_slotIdx t) (ts_offset t) (ts_sizeBytes t)]
                      | None \<Rightarrow> [SetTexture (ts_slotIdx t) (ts_texture t),
                                 SetHlmsSamplerblock (ts_slotIdx t) (ts_samplerblock t)]) slots)"

definition bindUavSlots :: "TextureSlot list \<Rightarrow> effect list" where
  "bindUavSlots slots =
    concat (map (\<lambda>u. case ts_buffer u of
                        Some buffer \<Rightarrow> [BindUavBufferCS buffer (ts_slotIdx u) (ts_offset u) (ts_sizeBytes u)]
                      | None \<Rightarrow> [BindTextureUavCS (ts_slotIdx u) (ts_texture u) (ts_access u)
                                   (ts_mipmapLevel u) (ts_textureArrayIndex u) (ts_pixelFormat u)]) slots)"

definition issueDispatch :: "nat \<Rightarrow> HlmsCompute \<Rightarrow> HlmsCompute" where
  "issueDispatch jobPtr s =
    (let jb = jobs s jobPtr;
         psoCache = mComputeShaderCache s ! mPsoCacheHash jb
     in s\<lparr>effects := effects s @ bindConstBuffers (mConstBuffers jb) @
                      bindTextureSlots (mTextureSlots jb) @ bindUavSlots (mUavSlots jb) @
                      [SetComputePso (pso psoCache), Dispatch (pso psoCache)]\<rparr>)"

definition dispatch :: "HlmsEnv \<Rightarrow> nat \<Rightarrow> nat \<Rightarrow> HlmsCompute \<Rightarrow> unit hlms_result option" where
  "dispatch env fuel jobPtr s =
    (case ensurePso env fuel jobPtr s of
       None \<Rightarrow> None
     | Some (Inl failure) \<Rightarrow> Some (Inl failure)
     | Some (Inr (u, s1)) \<Rightarrow> Some (Inr ((), issueDispatch jobPtr s1)))"

subsection \<open>Auxiliary notions\<close>

text \<open>A property vector whose keys are strictly increasing.\<close>

definition keysSorted :: "HlmsPropertyVec \<Rightarrow> bool" where
  "keysSorted ps \<longleftrightarrow> sorted_wrt (\<lambda>a b. fst a < fst b) ps"

text \<open>\<open>untouched s s'\<close>: the jobs and the PSO cache are the same in both states.\<close>

definition untouched :: "HlmsCompute \<Rightarrow> HlmsCompute \<Rightarrow> bool" where
  "untouched s s' \<longleftrightarrow> jobs s' = jobs s \<and> mComputeShaderCache s' = mComputeShaderCache s"

subsection \<open>Test inputs\<close>

text \<open>
  A concrete environment: template passes that copy their input and report no error, one
  source file \<open>Blur.glsl\<close>, a hash that is good enough for a single text, decimal
  \<open>toString\<close>, and an \<open>_updateAutoProperties\<close> that adds nothing.
\<close>

fun decimalString :: "nat \<Rightarrow> string" where
  "decimalString n =
    (if n < 10 then [''0123456789'' ! n]
     else decimalString (n div 10) @ [''0123456789'' ! (n mod 10)])"

definition passThrough :: parser where
  "passThrough props pieces inBuffer = (False, inBuffer, props, pieces)"

definition testSource :: string where
  "testSource = ''void main() {}''"

definition testEnv :: HlmsEnv where
  "testEnv =
    \<lparr>parseMath = passThrough, parseForEach = passThrough, parseProperties = passThrough,
     collectPieces = passThrough, insertPieces = passThrough, parseCounter = passThrough,
     openResource = [''Blur.glsl'' \<mapsto> testSource],
     hash128 = (\<lambda>str. of_nat (length str)),
     toString = (\<lambda>w. decimalString (unat w)),
     updateAutoProperties = (\<lambda>j. j)\<rparr>"

text \<open>A job on \<open>Blur.glsl\<close> without piece files and bindings, and an HlmsCompute on the
  GLSL profile with empty caches.\<close>

definition testJob :: "HlmsPropertyVec \<Rightarrow> nat \<Rightarrow> HlmsComputeJob" where
  "testJob props index =
    \<lparr>mSourceFilename = ''Blur.glsl'', mIncludedPieceFiles = [], job_mSetProperties = props,
     mPsoCacheHash = index, mConstBuffers = [], mTextureSlots = [], mUavSlots = []\<rparr>"

definition testHlms :: "HlmsPropertyVec \<Rightarrow> (nat \<Rightarrow> HlmsComputeJob) \<Rightarrow> HlmsCompute" where
  "testHlms props js =
    \<lparr>mSetProperties = props, mPieces = [], mRsSpecificExtensions = [], mShaderProfile = ''glsl'',
     mShaderFileExt = ''.glsl'', mHighQuality = False, mDebugOutput = False, mOutputPath = [],
     mComputeShaderTarget = None, mCompiledShaderCache = Map.empty, mComputeShaderCache = [],
     jobs = js, programs = [], effects = []\<rparr>"

definition testJobs :: "nat \<Rightarrow> HlmsComputeJob" where
  "testJobs = (\<lambda>jobPtr. testJob [] invalidPsoCacheHash)"

text \<open>Properties that give the dispatch shape: \<open>x * y * z\<close> threads per group, one group.\<close>

definition shapeProps :: "int32 \<Rightarrow> int32 \<Rightarrow> int32 \<Rightarrow> HlmsPropertyVec" where
  "shapeProps x y z =
    propertiesOf [(ThreadsPerGroupX, x), (ThreadsPerGroupY, y), (ThreadsPerGroupZ, z),
                  (NumThreadGroupsX, 1), (NumThreadGroupsY, 1), (NumThreadGroupsZ, 1)]"

text \<open>What \<^verbatim>\<open>compileShader\<close> adds to the properties on this HlmsCompute before expanding.\<close>

definition compiledProps :: "HlmsPropertyVec \<Rightarrow> HlmsPropertyVec" where
  "compiledProps props = setPropertyVec HighQuality 0 (setPropertyVec GL3Plus 330 props)"

text \<open>The program \<^verbatim>\<open>compileShader\<close> creates for the test job when \<open>finalHash\<close> is \<open>0\<close>.\<close>

definition testProgram :: HighLevelGpuProgram where
  "testProgram =
    \<lparr>gp_name = ''0Blur.glsl'', gp_language = ''glsl'', gp_source = testSource,
     gp_debugFilename = [], gp_parameters = [], gp_skeletalAnimationIncluded = False,
     gp_poseAnimationIncluded = 0, gp_loaded = True\<rparr>"

text \<open>
  \<open>65536 * 65536 * 1\<close> threads per group, with the disable flag set so that no program is
  looked up: every value is non-zero and the product is \<open>2^32\<close>.
\<close>

definition overflowProps :: HlmsPropertyVec where
  "overflowProps = setPropertyVec DisableStage 1 (shapeProps 65536 65536 1)"

text \<open>A job with these properties that was never dispatched.\<close>

definition failingHlms :: HlmsCompute where
  "failingHlms = testHlms [] (\<lambda>jobPtr. testJob overflowProps invalidPsoCacheHash)"

text \<open>
  One cached PSO, compiled for job \<open>7\<close> with the properties \<open>b = 2, a = 1\<close>; every job
  holds the same two properties, set in the other order, and an invalid index. The second
  state is the one \<open>dispatch\<close> of job \<open>3\<close> leaves behind.
\<close>

definition reorderedHlms :: HlmsCompute where
  "reorderedHlms =
    (testHlms [] (\<lambda>jobPtr. testJob (propertiesOf [(''a'', 1), (''b'', 2)]) invalidPsoCacheHash))
      \<lparr>mComputeShaderCache :=
         [\<lparr>job = 7, setProperties = propertiesOf [(''b'', 2), (''a'', 1)],
           pso = \<lparr>computeShader = None, mThreadsPerGroup = [8, 8, 1], mNumThreadGroups = [1, 1, 1]\<rparr>\<rparr>]\<rparr>"

definition afterSharedDispatch :: HlmsCompute where
  "afterSharedDispatch =
    issueDispatch 3 (updateJob 3 (\<lambda>j. j\<lparr>mPsoCacheHash := 0\<rparr>)
      (updateJob 3 (updateAutoProperties testEnv) reorderedHlms))"

text \<open>
  Every job holds a fully set shape of \<open>8 * 8 * 1\<close> threads per group and one thread
  group, none was dispatched yet, and both caches are empty.
\<close>

definition missHlms :: HlmsCompute where
  "missHlms = testHlms [] (\<lambda>jobPtr. testJob (shapeProps 8 8 1) invalidPsoCacheHash)"

text \<open>
  The same with the disable flag set in the jobs' properties, so that \<^verbatim>\<open>compileShader\<close>
  builds a PSO without a program; \<open>shapePso\<close> is that PSO.
\<close>

definition disabledShapeProps :: HlmsPropertyVec where
  "disabledShapeProps = setPropertyVec DisableStage 1 (shapeProps 8 8 1)"

definition shapePso :: HlmsComputePso where
  "shapePso = \<lparr>computeShader = None, mThreadsPerGroup = [8, 8, 1], mNumThreadGroups = [1, 1, 1]\<rparr>"

definition sharingHlms :: HlmsCompute where
  "sharingHlms = testHlms [] (\<lambda>jobPtr. testJob disabledShapeProps invalidPsoCacheHash)"

section \<open>Texture buffer binding: results\<close>

lemma totalSizeBytes_byteBuffer: "totalSizeBytes (byteBuffer n) = n"
  by (simp add: totalSizeBytes_def byteBuffer_def)

text \<open>
  What the native path binds whenever the three leading assertions hold: the range starts
  at \<open>offset\<close> inside this buffer's region of the buffer object, and a zero \<open>sizeBytes\<close>
  is replaced by the rest of the buffer.
\<close>

lemma bindBuffer_native:
  assumes "mBufferInterfaceIsGL3Plus b"
    and "offset < totalSizeBytes b - 1"
    and "offset + sizeBytes \<le> totalSizeBytes b"
    and "\<not> mUseLegacyTechnique b"
  shows "bindBuffer b slot offset sizeBytes =
    Inr [GlActiveTexture (unat slot),
         GlBindTexture GL_TEXTURE_BUFFER (mTexName b),
         GlTexBufferRange (mInternalFormat b) (mVboName b)
           (mFinalBufferStart b * ucast (mBytesPerElement b) + offset)
           (if sizeBytes = 0 then totalSizeBytes b - offset else sizeBytes),
         GlActiveTexture 0]"
  using assms by (simp add: bindBuffer_def)

text \<open>The second assertion is the only one that looks at \<open>offset\<close> alone.\<close>

lemma bindBuffer_second_assertion:
  "bindBuffer b slot offset sizeBytes = Inl (AssertionFailed 2) \<longleftrightarrow>
     mBufferInterfaceIsGL3Plus b \<and> \<not> offset < totalSizeBytes b - 1"
  by (auto simp: bindBuffer_def Let_def split: if_splits)

text \<open>
  C8 (rest-of-buffer sentinel). The claim promises that for every \<open>offset < N\<close> a call with
  \<open>sizeBytes = 0\<close> binds \<open>[offset, N)\<close>, and in particular that \<open>bind(0, 0)\<close> binds all \<open>N\<close>
  bytes. On a buffer of one byte, \<open>bind(0, 0)\<close> satisfies \<open>offset < N\<close> and yet stops at
  the second assertion (\<open>offset < N - 1\<close>) instead of binding \<open>[0, 1)\<close>; the same happens
  at the last offset of a sixteen-byte buffer.
\<close>

theorem bindBuffer_rest_of_buffer_last_offset:
  "(0 :: size_t) < totalSizeBytes (byteBuffer 1)
    \<and> bindBufferCS (byteBuffer 1) 0 0 0 = Inl (AssertionFailed 2)
    \<and> (15 :: size_t) < totalSizeBytes (byteBuffer 16)
    \<and> bindBufferCS (byteBuffer 16) 0 15 0 = Inl (AssertionFailed 2)"
  by (simp add: bindBufferCS_def bindBuffer_def totalSizeBytes_byteBuffer)
    (simp add: byteBuffer_def)

text \<open>
  C9 (documented precondition passes every assertion). With \<open>N = 4\<close>, \<open>offset = 3 = N - 1\<close>
  and \<open>sizeBytes = 1\<close> the documented precondition holds (\<open>offset < N\<close> and
  \<open>offset + sizeBytes \<le> N\<close>, without wrap-around), but the second assertion of the routine
  fails.
\<close>

theorem bindBuffer_precondition_fails_assertion:
  "unat (3 :: size_t) < unat (totalSizeBytes (byteBuffer 4))
    \<and> unat (3 :: size_t) + unat (1 :: size_t) \<le> unat (totalSizeBytes (byteBuffer 4))
    \<and> bindBuffer (byteBuffer 4) 0 3 1 = Inl (AssertionFailed 2)"
  by (simp add: bindBuffer_def totalSizeBytes_byteBuffer)
    (simp add: byteBuffer_def)

section \<open>Scene importer: results\<close>

subsection \<open>Unfolding one level of the recursion\<close>

lemma importSceneNode_zero [simp]: "importSceneNode 0 (JArray nodes) v i imp = None"
  by simp

text \<open>
  The four ways a call with fuel \<open>Suc f\<close> returns normally: the element is its own parent
  and flagged as root, its own parent and not flagged, child of a parent already
  registered, or child of a parent that is imported by the nested call.
\<close>

lemma importSceneNode_SucE:
  assumes "importSceneNode (Suc f) (JArray nodes) v i imp = Some (Inr (h, imp'))"
  obtains
    (self_root) nv where "nodeObject v = Some nv" "parentIdxOf nv i = i" "isRootNodeOf v"
      "h = RootSceneNode (sceneNodeTypeOf nv)"
      "imp' = registerSceneNode nv i h (mSceneManager imp) imp"
  | (self_fresh) nv where "nodeObject v = Some nv" "parentIdxOf nv i = i" "\<not> isRootNodeOf v"
      "h = NodeId (length (createdNodes (mSceneManager imp)))"
      "imp' = registerSceneNode nv i h
         (snd (createSceneNode (mSceneManager imp) (sceneNodeTypeOf nv))) imp"
  | (parent_known) nv hj where "nodeObject v = Some nv" "parentIdxOf nv i \<noteq> i"
      "mCreatedSceneNodes imp (parentIdxOf nv i) = Some hj"
      "h = NodeId (length (createdNodes (mSceneManager imp)))"
      "imp' = registerSceneNode nv i h
         (snd (createChildSceneNode (mSceneManager imp) hj (sceneNodeTypeOf nv))) imp"
  | (parent_rec) nv hj imp1 where "nodeObject v = Some nv" "parentIdxOf nv i \<noteq> i"
      "mCreatedSceneNodes imp (parentIdxOf nv i) = None"
      "parentIdxOf nv i < length nodes" "IsObject (nodes ! parentIdxOf nv i)"
      "importSceneNode f (JArray nodes) (nodes ! parentIdxOf nv i) (parentIdxOf nv i) imp = Some (Inr (hj, imp1))"
      "h = NodeId (length (createdNodes (mSceneManager imp1)))"
      "imp' = registerSceneNode nv i h
         (snd (createChildSceneNode (mSceneManager imp1) hj (sceneNodeTypeOf nv))) imp1"
  using assms
  by (auto simp: Let_def getRootSceneNode_def createSceneNode_def createChildSceneNode_def
      split: option.splits if_splits sum.splits prod.splits)

text \<open>More fuel never changes a result, so results do not depend on the fuel.\<close>

lemma importSceneNode_mono:
  "importSceneNode f (JArray nodes) v i imp = Some r \<Longrightarrow> importSceneNode (f + d) (JArray nodes) v i imp = Some r"
proof (induction f arbitrary: v i imp r)
  case 0
  then show ?case by simp
next
  case (Suc f)
  show ?case
  proof (cases "nodeObject v")
    case None
    with Suc.prems show ?thesis by simp
  next
    case (Some nv)
    let ?j = "parentIdxOf nv i"
    show ?thesis
    proof (cases "?j \<noteq> i \<and> mCreatedSceneNodes imp ?j = None \<and> ?j < length nodes \<and> IsObject (nodes ! ?j)")
      case False
      with Suc.prems Some show ?thesis by (auto simp: Let_def split: option.splits)
    next
      case True
      with Suc.prems Some obtain r1 where r1: "importSceneNode f (JArray nodes) (nodes ! ?j) ?j imp = Some r1"
        by (auto simp: Let_def split: option.splits)
      from Suc.IH[OF r1] have "importSceneNode (f + d) (JArray nodes) (nodes ! ?j) ?j imp = Some r1" .
      with Suc.prems Some True r1 show ?thesis by (simp add: Let_def)
    qed
  qed
qed

lemma importSceneNode_deterministic:
  assumes "importSceneNode f (JArray nodes) v i imp = Some r" "importSceneNode g (JArray nodes) v i imp = Some r'"
  shows "r = r'"
proof -
  have "importSceneNode (f + g) (JArray nodes) v i imp = Some r"
    using importSceneNode_mono[OF assms(1)] .
  moreover have "importSceneNode (g + f) (JArray nodes) v i imp = Some r'"
    using importSceneNode_mono[OF assms(2)] .
  ultimately show ?thesis by (simp add: add.commute)
qed

lemma created_registerSceneNode [simp]:
  "mCreatedSceneNodes (registerSceneNode nv i h sm imp) = (mCreatedSceneNodes imp)(i \<mapsto> h)"
  by (simp add: registerSceneNode_def)

lemma createdNodes_registerSceneNode [simp]:
  "createdNodes (mSceneManager (registerSceneNode nv i h sm imp)) = createdNodes sm"
  by (simp add: registerSceneNode_def)

lemma createdNodes_createSceneNode [simp]:
  "createdNodes (snd (createSceneNode sm t)) = createdNodes sm @ [\<lparr>nodeType = t, nodeParent = None\<rparr>]"
  by (simp add: createSceneNode_def)

lemma createdNodes_createChildSceneNode [simp]:
  "createdNodes (snd (createChildSceneNode sm p t)) =
     createdNodes sm @ [\<lparr>nodeType = t, nodeParent = Some p\<rparr>]"
  by (simp add: createChildSceneNode_def)

subsection \<open>No index is registered twice\<close>

text \<open>
  A key that appears during an import, other than the imported index itself, belongs to
  an ancestor: its own import returns from the same state with less fuel.
\<close>

lemma importSceneNode_new_key:
  assumes "importSceneNode (Suc f) (JArray nodes) v i imp = Some (Inr (h, imp'))"
    and "mCreatedSceneNodes imp x = None" "mCreatedSceneNodes imp' x \<noteq> None" "x \<noteq> i"
  shows "\<exists>r. importSceneNode f (JArray nodes) (nodes ! x) x imp = Some (Inr r)"
  using assms
proof (induction f arbitrary: v i h imp')
  case 0
  from "0.prems"(1) show ?case
    by (cases rule: importSceneNode_SucE) (use "0.prems" in \<open>auto split: if_splits\<close>)
next
  case (Suc f)
  from Suc.prems(1) show ?case
  proof (cases rule: importSceneNode_SucE)
    case (parent_rec nv hj imp1)
    let ?j = "parentIdxOf nv i"
    show ?thesis
    proof (cases "x = ?j")
      case True
      with parent_rec show ?thesis by auto
    next
      case False
      from parent_rec Suc.prems have "mCreatedSceneNodes imp1 x \<noteq> None" by auto
      from Suc.IH[OF parent_rec(6) Suc.prems(2) this False]
      obtain r where "importSceneNode f (JArray nodes) (nodes ! x) x imp = Some (Inr r)" by blast
      from importSceneNode_mono[OF this, of 1] show ?thesis by auto
    qed
  qed (use Suc.prems in \<open>auto split: if_splits\<close>)
qed

text \<open>
  Hence the nested import of the parent cannot register the child's own index: the child
  would then return with less fuel than the least fuel it returns with.
\<close>

lemma importSceneNode_no_reinsert:
  assumes rec: "importSceneNode f (JArray nodes) (nodes ! j) j imp = Some (Inr (hj, imp1))"
    and nv: "nodeObject (nodes ! i) = Some nv" and j: "parentIdxOf nv i = j" "j \<noteq> i"
    and free: "mCreatedSceneNodes imp i = None" "mCreatedSceneNodes imp j = None"
  shows "mCreatedSceneNodes imp1 i = None"
proof (rule ccontr)
  assume re: "mCreatedSceneNodes imp1 i \<noteq> None"
  define P where "P g \<longleftrightarrow> (\<exists>r. importSceneNode g (JArray nodes) (nodes ! i) i imp = Some (Inr r))" for g
  from rec obtain f0 where f: "f = Suc f0" by (cases f) auto
  from importSceneNode_new_key[OF rec[unfolded f] free(1) re] j
  have "P f0" by (auto simp: P_def)
  then obtain g where g: "P g" and least: "\<And>g'. g' < g \<Longrightarrow> \<not> P g'"
    by (metis exists_least_iff)
  from g obtain g0 where g0: "g = Suc g0" by (cases g) (auto simp: P_def)
  from g obtain h imp' where run: "importSceneNode (Suc g0) (JArray nodes) (nodes ! i) i imp = Some (Inr (h, imp'))"
    by (auto simp: P_def g0)
  from run show False
  proof (cases rule: importSceneNode_SucE)
    case (parent_rec nv' hj' imp1')
    with nv j have call: "importSceneNode g0 (JArray nodes) (nodes ! j) j imp = Some (Inr (hj', imp1'))"
      by auto
    from importSceneNode_deterministic[OF call rec] have same: "imp1' = imp1" by simp
    from call obtain g00 where g00: "g0 = Suc g00" by (cases g0) auto
    from importSceneNode_new_key[OF call[unfolded g00] free(1)] re same j
    have "P g00" by (auto simp: P_def)
    with least[of g00] show False by (simp add: g0 g00)
  qed (use nv j free in auto)
qed

subsection \<open>The invariant is preserved\<close>

lemma childLinked_preserved:
  assumes "childLinked nodes imp x" "mCreatedSceneNodes imp x \<noteq> None"
    and "mCreatedSceneNodes imp i = None"
    and "mCreatedSceneNodes imp' = (mCreatedSceneNodes imp)(i \<mapsto> h)"
    and "\<exists>ys. createdNodes (mSceneManager imp') = createdNodes (mSceneManager imp) @ ys"
  shows "childLinked nodes imp' x"
proof -
  from assms(2,3) have xi: "x \<noteq> i" by auto
  from assms(5) obtain ys where ys: "createdNodes (mSceneManager imp') = createdNodes (mSceneManager imp) @ ys" ..
  show ?thesis
    unfolding childLinked_def
  proof (intro allI impI)
    fix nv assume nv: "nodeObject (nodes ! x) = Some nv" "parentIdxOf nv x \<noteq> x"
    with assms(1) obtain k hj where k: "mCreatedSceneNodes imp x = Some (NodeId k)"
      "k < length (createdNodes (mSceneManager imp))"
      "mCreatedSceneNodes imp (parentIdxOf nv x) = Some hj"
      "createdNodes (mSceneManager imp) ! k = \<lparr>nodeType = sceneNodeTypeOf nv, nodeParent = Some hj\<rparr>"
      unfolding childLinked_def by blast
    from k(3) assms(3) have "parentIdxOf nv x \<noteq> i" by auto
    with k xi show "\<exists>k hj. mCreatedSceneNodes imp' x = Some (NodeId k)
        \<and> k < length (createdNodes (mSceneManager imp'))
        \<and> mCreatedSceneNodes imp' (parentIdxOf nv x) = Some hj
        \<and> createdNodes (mSceneManager imp') ! k =
            \<lparr>nodeType = sceneNodeTypeOf nv, nodeParent = Some hj\<rparr>"
      by (auto simp: assms(4) ys nth_append)
  qed
qed

lemma importerInv_register_root:
  assumes inv: "importerInv n0 nodes imp" and free: "mCreatedSceneNodes imp i = None"
    and nv: "nodeObject (nodes ! i) = Some nv" "parentIdxOf nv i = i"
  shows "importerInv n0 nodes (registerSceneNode nv i (RootSceneNode t) (mSceneManager imp) imp)"
    (is "importerInv n0 nodes ?imp'")
proof -
  have cr: "mCreatedSceneNodes ?imp' = (mCreatedSceneNodes imp)(i \<mapsto> RootSceneNode t)" by simp
  have cn: "createdNodes (mSceneManager ?imp') = createdNodes (mSceneManager imp)" by simp
  have link: "childLinked nodes ?imp' x" if "mCreatedSceneNodes ?imp' x \<noteq> None" for x
  proof (cases "x = i")
    case True
    with nv show ?thesis by (simp add: childLinked_def)
  next
    case False
    with that have x: "mCreatedSceneNodes imp x \<noteq> None" by simp
    with inv have "childLinked nodes imp x" by (simp add: importerInv_def)
    from childLinked_preserved[OF this x free cr] cn show ?thesis by simp
  qed
  from inv free show ?thesis
    unfolding importerInv_def cn
    apply (intro conjI)
        apply simp
       apply (use link in blast)
      apply (simp add: cr)
     apply (simp add: cr; metis option.distinct(1))
    apply (simp add: cr; metis)
    done
qed

lemma importerInv_register_fresh:
  assumes inv: "importerInv n0 nodes imp" and free: "mCreatedSceneNodes imp i = None"
    and nv: "nodeObject (nodes ! i) = Some nv"
    and sm: "createdNodes sm = createdNodes (mSceneManager imp) @ [d]"
    and d: "parentIdxOf nv i \<noteq> i \<Longrightarrow>
       \<exists>hj. mCreatedSceneNodes imp (parentIdxOf nv i) = Some hj
         \<and> d = \<lparr>nodeType = sceneNodeTypeOf nv, nodeParent = Some hj\<rparr>"
  shows "importerInv n0 nodes
     (registerSceneNode nv i (NodeId (length (createdNodes (mSceneManager imp)))) sm imp)"
    (is "importerInv n0 nodes ?imp'")
proof -
  let ?n = "length (createdNodes (mSceneManager imp))"
  have cr: "mCreatedSceneNodes ?imp' = (mCreatedSceneNodes imp)(i \<mapsto> NodeId ?n)" by simp
  have cn: "createdNodes (mSceneManager ?imp') = createdNodes (mSceneManager imp) @ [d]"
    by (simp add: sm)
  from inv have bound: "\<And>x k. mCreatedSceneNodes imp x = Some (NodeId k) \<Longrightarrow> n0 \<le> k \<and> k < ?n"
    and n0: "n0 \<le> ?n"
    and onto: "\<And>k. n0 \<le> k \<Longrightarrow> k < ?n \<Longrightarrow> \<exists>x. mCreatedSceneNodes imp x = Some (NodeId k)"
    and inj: "\<And>x x' k. mCreatedSceneNodes imp x = Some (NodeId k) \<Longrightarrow>
          mCreatedSceneNodes imp x' = Some (NodeId k) \<Longrightarrow> x = x'"
    unfolding importerInv_def by blast+
  have link: "childLinked nodes ?imp' x" if "mCreatedSceneNodes ?imp' x \<noteq> None" for x
  proof (cases "x = i")
    case True
    show ?thesis
      unfolding childLinked_def True
    proof (intro allI impI)
      fix nv' assume "nodeObject (nodes ! i) = Some nv'" "parentIdxOf nv' i \<noteq> i"
      with nv have eq: "nv' = nv" and ne: "parentIdxOf nv i \<noteq> i" by auto
      from d[OF ne] obtain hj where hj: "mCreatedSceneNodes imp (parentIdxOf nv i) = Some hj"
        "d = \<lparr>nodeType = sceneNodeTypeOf nv, nodeParent = Some hj\<rparr>" by blast
      show "\<exists>k hj. mCreatedSceneNodes ?imp' i = Some (NodeId k)
        \<and> k < length (createdNodes (mSceneManager ?imp'))
        \<and> mCreatedSceneNodes ?imp' (parentIdxOf nv' i) = Some hj
        \<and> createdNodes (mSceneManager ?imp') ! k =
            \<lparr>nodeType = sceneNodeTypeOf nv', nodeParent = Some hj\<rparr>"
        using hj ne by (auto simp: eq sm)
    qed
  next
    case False
    with that have x: "mCreatedSceneNodes imp x \<noteq> None" by simp
    with inv have "childLinked nodes imp x" by (simp add: importerInv_def)
    from childLinked_preserved[OF this x free cr] cn show ?thesis by blast
  qed
  have b': "n0 \<le> k \<and> k < Suc ?n" if "mCreatedSceneNodes ?imp' x = Some (NodeId k)" for x k
    using that bound[of x k] n0 by (auto split: if_splits)
  have onto': "\<exists>x. mCreatedSceneNodes ?imp' x = Some (NodeId k)" if "n0 \<le> k" "k < Suc ?n" for k
  proof (cases "k = ?n")
    case True
    then show ?thesis by (intro exI[of _ i]) simp
  next
    case False
    with that onto[of k] obtain x where x: "mCreatedSceneNodes imp x = Some (NodeId k)" by auto
    with free have "x \<noteq> i" by auto
    with x show ?thesis by (intro exI[of _ x]) simp
  qed
  have inj': "x = x'" if "mCreatedSceneNodes ?imp' x = Some (NodeId k)"
      "mCreatedSceneNodes ?imp' x' = Some (NodeId k)" for x x' k
    using that bound[of x k] bound[of x' k] inj[of x k x']
    by (auto split: if_splits)
  have len: "length (createdNodes (mSceneManager ?imp')) = Suc ?n" by (simp add: sm)
  show ?thesis
    unfolding importerInv_def len
  proof (intro conjI allI impI)
    show "n0 \<le> Suc ?n" using n0 by simp
    show "childLinked nodes ?imp' x" if "mCreatedSceneNodes ?imp' x \<noteq> None" for x
      using link[OF that] .
    show "n0 \<le> k" if "mCreatedSceneNodes ?imp' x = Some (NodeId k)" for x k
      using b'[OF that] by simp
    show "k < Suc ?n" if "mCreatedSceneNodes ?imp' x = Some (NodeId k)" for x k
      using b'[OF that] by simp
    show "\<exists>x. mCreatedSceneNodes ?imp' x = Some (NodeId k)" if "n0 \<le> k \<and> k < Suc ?n" for k
      using onto'[of k] that by blast
    show "x = x'" if "mCreatedSceneNodes ?imp' x = Some (NodeId k)"
      "mCreatedSceneNodes ?imp' x' = Some (NodeId k)" for x x' k
      using inj'[OF that] .
  qed
qed

lemma importSceneNode_inv:
  assumes "importSceneNode fuel (JArray nodes) (nodes ! i) i imp = Some (Inr (h, imp'))"
    and "mCreatedSceneNodes imp i = None" and "importerInv n0 nodes imp"
  shows "importerInv n0 nodes imp' \<and> mCreatedSceneNodes imp' i = Some h
    \<and> (\<forall>x. mCreatedSceneNodes imp x \<noteq> None \<longrightarrow> mCreatedSceneNodes imp' x = mCreatedSceneNodes imp x)"
  using assms
proof (induction fuel arbitrary: i imp h imp')
  case 0
  then show ?case by simp
next
  case (Suc fuel)
  from Suc.prems(1) show ?case
  proof (cases rule: importSceneNode_SucE)
    case (self_root nv)
    with importerInv_register_root[OF Suc.prems(3,2) self_root(1,2)] Suc.prems(2)
    show ?thesis by auto
  next
    case (self_fresh nv)
    have "importerInv n0 nodes imp'"
      unfolding self_fresh(4,5)
      by (rule importerInv_register_fresh[OF Suc.prems(3,2) self_fresh(1)])
        (use self_fresh in auto)
    with self_fresh Suc.prems(2) show ?thesis by auto
  next
    case (parent_known nv hj)
    have "importerInv n0 nodes imp'"
      unfolding parent_known(4,5)
      by (rule importerInv_register_fresh[OF Suc.prems(3,2) parent_known(1)])
        (use parent_known in auto)
    with parent_known Suc.prems(2) show ?thesis by auto
  next
    case (parent_rec nv hj imp1)
    let ?j = "parentIdxOf nv i"
    from Suc.IH[OF parent_rec(6,3) Suc.prems(3)]
    have inv1: "importerInv n0 nodes imp1" and hj: "mCreatedSceneNodes imp1 ?j = Some hj"
      and keep: "\<And>x. mCreatedSceneNodes imp x \<noteq> None \<Longrightarrow>
          mCreatedSceneNodes imp1 x = mCreatedSceneNodes imp x"
      by blast+
    have free1: "mCreatedSceneNodes imp1 i = None"
      by (rule importSceneNode_no_reinsert[OF parent_rec(6,1) refl parent_rec(2) Suc.prems(2) parent_rec(3)])
    have "importerInv n0 nodes imp'"
      unfolding parent_rec(7,8)
      by (rule importerInv_register_fresh[OF inv1 free1 parent_rec(1)])
        (use hj in auto)
    moreover have "mCreatedSceneNodes imp' x = mCreatedSceneNodes imp x"
      if "mCreatedSceneNodes imp x \<noteq> None" for x
      using keep[OF that] that free1 by (auto simp: parent_rec(8))
    ultimately show ?thesis by (auto simp: parent_rec(8))
  qed
qed

lemma nodeObject_IsObject: "nodeObject v = Some nv \<Longrightarrow> IsObject v"
  by (cases v) (simp_all add: nodeObject_def)

lemma importSceneNode_child_of_declared_parent:
  assumes run: "importSceneNode fuel (JArray nodes) (nodes ! i) i imp = Some (Inr (h, imp'))"
    and free: "mCreatedSceneNodes imp i = None" and inv: "importerInv n0 nodes imp"
    and nv: "nodeObject (nodes ! i) = Some nodeValue"
    and p: "parentIdxOf nodeValue i \<noteq> i"
  shows "\<exists>hj. mCreatedSceneNodes imp' i = Some h
        \<and> mCreatedSceneNodes imp' (parentIdxOf nodeValue i) = Some hj
        \<and> parentOf (mSceneManager imp') h = Some hj
        \<and> typeOf (mSceneManager imp') h = Some (sceneNodeTypeOf nodeValue)"
proof -
  from importSceneNode_inv[OF run free inv]
  have inv': "importerInv n0 nodes imp'" and h: "mCreatedSceneNodes imp' i = Some h"
    by blast+
  from inv' h have "childLinked nodes imp' i" by (simp add: importerInv_def)
  with nv p obtain k hj where k: "mCreatedSceneNodes imp' i = Some (NodeId k)"
    "k < length (createdNodes (mSceneManager imp'))"
    "mCreatedSceneNodes imp' (parentIdxOf nodeValue i) = Some hj"
    "createdNodes (mSceneManager imp') ! k = \<lparr>nodeType = sceneNodeTypeOf nodeValue, nodeParent = Some hj\<rparr>"
    unfolding childLinked_def by force
  with h show ?thesis by (intro exI[of _ hj]) auto
qed

text \<open>
  The import of an element does return on well-formed input: if every element has a \<open>node\<close> object, every
  declared parent is in bounds, and \<open>depth\<close> decreases from each element to its declared
  parent, then fuel above every depth is enough.
\<close>

lemma importSceneNode_total:
  assumes wf: "\<And>i. i < length nodes \<Longrightarrow>
      \<exists>nv. nodeObject (nodes ! i) = Some nv \<and> parentIdxOf nv i < length nodes
        \<and> (parentIdxOf nv i \<noteq> i \<longrightarrow> depth (parentIdxOf nv i) < depth i)"
    and "i < length nodes" "depth i < fuel"
  shows "\<exists>h imp'. importSceneNode fuel (JArray nodes) (nodes ! i) i imp = Some (Inr (h, imp'))"
  using assms(2,3)
proof (induction fuel arbitrary: i)
  case 0
  then show ?case by simp
next
  case (Suc fuel)
  from wf[OF Suc.prems(1)] obtain nv where nv: "nodeObject (nodes ! i) = Some nv"
    "parentIdxOf nv i < length nodes"
    "parentIdxOf nv i \<noteq> i \<Longrightarrow> depth (parentIdxOf nv i) < depth i" by blast
  let ?j = "parentIdxOf nv i"
  show ?case
  proof (cases "?j \<noteq> i \<and> mCreatedSceneNodes imp ?j = None")
    case False
    with nv show ?thesis
      by (auto simp: Let_def createSceneNode_def createChildSceneNode_def split: option.splits)
  next
    case True
    with nv(3) Suc.prems(2) have "depth ?j < fuel" by simp
    from Suc.IH[OF nv(2) this] obtain hj imp1 where
      "importSceneNode fuel (JArray nodes) (nodes ! ?j) ?j imp = Some (Inr (hj, imp1))" by blast
    moreover from wf[OF nv(2)] have "IsObject (nodes ! ?j)"
      using nodeObject_IsObject by blast
    ultimately show ?thesis using nv True
      by (simp add: Let_def createChildSceneNode_def)
  qed
qed

subsection \<open>Running the importer on concrete inputs\<close>

lemmas importer_eval =
  newImporter_def nodeObject_def parentIdxOf_def sceneNodeTypeOf_def isRootNodeOf_def
  createSceneNode_def createChildSceneNode_def getRootSceneNode_def registerSceneNode_def
  importNode_def

text \<open>
  Called on element 0 of the three-element array, \<open>importSceneNode\<close> follows the forward
  reference: it first registers element 2 as the dynamic root and then creates element 0
  as a static node beneath it.
\<close>

lemma importSceneNode_forward_reference:
  "importSceneNode (Suc (Suc 0)) (JArray forwardBackwardNodes) (forwardBackwardNodes ! 0) 0 newImporter =
    Some (Inr (NodeId 0,
      \<lparr>mSceneManager =
         \<lparr>createdNodes = [\<lparr>nodeType = SCENE_STATIC, nodeParent = Some (RootSceneNode SCENE_DYNAMIC)\<rparr>],
          nodeCalls = []\<rparr>,
       mCreatedSceneNodes = [2 \<mapsto> RootSceneNode SCENE_DYNAMIC, 0 \<mapsto> NodeId 0]\<rparr>))"
  by (simp add: forwardBackwardNodes_def importer_eval)

subsection \<open>Parent cycles\<close>

text \<open>
  Let \<open>C\<close> be a set of indices of objects, none registered yet, each declaring a parent
  other than itself that is again in \<open>C\<close> (a parent cycle, or chains leading into one).
  Then the import of a member of \<open>C\<close> returns for no fuel: the recursion nests without
  bound. Nothing is registered on the way down, so no later call sees a difference.
\<close>

lemma importSceneNode_cycle_diverges:
  assumes closed: "\<And>i. i \<in> C \<Longrightarrow> i < length nodes \<and> IsObject (nodes ! i)
      \<and> mCreatedSceneNodes imp i = None
      \<and> (\<exists>nv. nodeObject (nodes ! i) = Some nv \<and> parentIdxOf nv i \<noteq> i \<and> parentIdxOf nv i \<in> C)"
    and "i \<in> C"
  shows "importSceneNode fuel (JArray nodes) (nodes ! i) i imp = None"
  using assms(2)
proof (induction fuel arbitrary: i)
  case 0
  show ?case by simp
next
  case (Suc fuel)
  from closed[OF Suc.prems] obtain nv where nv: "nodeObject (nodes ! i) = Some nv"
    "parentIdxOf nv i \<noteq> i" "parentIdxOf nv i \<in> C" by blast
  from closed[OF nv(3)] have j: "parentIdxOf nv i < length nodes"
    "IsObject (nodes ! parentIdxOf nv i)" "mCreatedSceneNodes imp (parentIdxOf nv i) = None"
    by blast+
  from Suc.IH[OF nv(3)] nv j show ?case by simp
qed

text \<open>
  C4 (a parent cycle is reported as a malformed file). The claim says that resolution of an
  array with a parent cycle terminates with a malformed-file error. For the array
  \<open>[{node: {parent_id: 1}}, {node: {parent_id: 0}}]\<close> and a new importer,
  \<open>importSceneNode\<close> called for element 0, and likewise for element 1, neither raises nor
  returns: whatever recursion depth is allowed, it is still nesting calls (\<open>None\<close>).
  \<open>mCreatedSceneNodes\<close> is written only after the nested call returns, and nothing marks
  a node as being resolved.
\<close>

theorem importSceneNode_parent_cycle_never_returns:
  "\<forall>fuel.
     importSceneNode fuel (JArray cyclicSceneNodes) (cyclicSceneNodes ! 0) 0 newImporter = None
     \<and> importSceneNode fuel (JArray cyclicSceneNodes) (cyclicSceneNodes ! 1) 1 newImporter = None"
proof
  fix fuel
  have "importSceneNode fuel (JArray cyclicSceneNodes) (cyclicSceneNodes ! i) i newImporter = None"
    if "i \<in> {0, 1}" for i
    using _ that
  proof (rule importSceneNode_cycle_diverges)
    fix k :: nat assume "k \<in> {0, 1}"
    then show "k < length cyclicSceneNodes \<and> IsObject (cyclicSceneNodes ! k)
      \<and> mCreatedSceneNodes newImporter k = None
      \<and> (\<exists>nv. nodeObject (cyclicSceneNodes ! k) = Some nv \<and> parentIdxOf nv k \<noteq> k
            \<and> parentIdxOf nv k \<in> {0, 1})"
      by (auto simp: cyclicSceneNodes_def importer_eval)
  qed
  from this[of 0] this[of 1]
  show "importSceneNode fuel (JArray cyclicSceneNodes) (cyclicSceneNodes ! 0) 0 newImporter = None
     \<and> importSceneNode fuel (JArray cyclicSceneNodes) (cyclicSceneNodes ! 1) 1 newImporter = None"
    by simp
qed

subsection \<open>Elements that are their own parent\<close>

text \<open>
  C6, counterexample. In the array of the specification's example \<open>is_root_node\<close> sits
  inside the \<open>node\<close> object of element 1, whose \<open>parent_id\<close> is its own index. The code
  looks the flag up in the scene-node element, does not find it, and resolves element 1 to
  a newly created top-level node (\<open>NodeId 0\<close>, no parent), not to the root. Resolving
  element 0 first creates that node and then attaches element 0 (\<open>NodeId 1\<close>) beneath it.
\<close>

theorem importSceneNode_spec_example_node_not_root:
  "importSceneNode (Suc 0) (JArray specExampleNodes) (specExampleNodes ! 1) 1 newImporter =
     Some (Inr (NodeId 0,
       \<lparr>mSceneManager =
          \<lparr>createdNodes = [\<lparr>nodeType = SCENE_DYNAMIC, nodeParent = None\<rparr>], nodeCalls = []\<rparr>,
        mCreatedSceneNodes = [1 \<mapsto> NodeId 0]\<rparr>))
   \<and> importSceneNode (Suc (Suc 0)) (JArray specExampleNodes) (specExampleNodes ! 0) 0 newImporter =
     Some (Inr (NodeId 1,
       \<lparr>mSceneManager =
          \<lparr>createdNodes = [\<lparr>nodeType = SCENE_DYNAMIC, nodeParent = None\<rparr>,
                           \<lparr>nodeType = SCENE_DYNAMIC, nodeParent = Some (NodeId 0)\<rparr>],
           nodeCalls = []\<rparr>,
        mCreatedSceneNodes = [1 \<mapsto> NodeId 0, 0 \<mapsto> NodeId 1]\<rparr>))
   \<and> getRootSceneNode (mSceneManager newImporter) SCENE_DYNAMIC \<noteq> NodeId 0"
  by (simp add: specExampleNodes_def importer_eval)

text \<open>
  C6, as amended. An element with a \<open>node\<close> object whose parent index is its own index (a
  \<open>parent_id\<close> equal to the index, or none that is an unsigned integer) resolves to the
  scene manager's root of its type exactly when the \<open>is_root_node\<close> member of the
  scene-node element itself (beside \<open>node\<close>, not inside it) is the boolean true; otherwise
  it resolves to a newly created node without parent. In both cases the index is
  registered with that node. In particular, resolving element 0 of
  \<open>[{node: {parent_id: 1}}, {node: {parent_id: 1}, is_root_node: true}]\<close> first registers
  element 1 as the dynamic root and then creates element 0 as a new node beneath it.
\<close>

theorem importSceneNode_own_parent_root_flag:
  assumes "nodeObject sceneNodeValue = Some nodeValue"
    and "parentIdxOf nodeValue nodeIdx = nodeIdx"
  shows "importSceneNode (Suc fuel) sceneNodesJson sceneNodeValue nodeIdx imp =
      (if FindMember sceneNodeValue ''is_root_node'' = Some (JBool True)
       then Some (Inr (RootSceneNode (sceneNodeTypeOf nodeValue),
              registerSceneNode nodeValue nodeIdx (RootSceneNode (sceneNodeTypeOf nodeValue))
                (mSceneManager imp) imp))
       else Some (Inr (NodeId (length (createdNodes (mSceneManager imp))),
              registerSceneNode nodeValue nodeIdx (NodeId (length (createdNodes (mSceneManager imp))))
                ((mSceneManager imp)\<lparr>createdNodes := createdNodes (mSceneManager imp) @
                    [\<lparr>nodeType = sceneNodeTypeOf nodeValue, nodeParent = None\<rparr>]\<rparr>) imp)))
    \<and> importSceneNode (Suc (Suc fuel)) (JArray rootFlagNodes) (rootFlagNodes ! 0) 0 newImporter =
        Some (Inr (NodeId 0,
          \<lparr>mSceneManager =
             \<lparr>createdNodes = [\<lparr>nodeType = SCENE_DYNAMIC,
                                 nodeParent = Some (RootSceneNode SCENE_DYNAMIC)\<rparr>],
              nodeCalls = []\<rparr>,
           mCreatedSceneNodes = [1 \<mapsto> RootSceneNode SCENE_DYNAMIC, 0 \<mapsto> NodeId 0]\<rparr>))"
proof
  show "importSceneNode (Suc fuel) sceneNodesJson sceneNodeValue nodeIdx imp =
      (if FindMember sceneNodeValue ''is_root_node'' = Some (JBool True)
       then Some (Inr (RootSceneNode (sceneNodeTypeOf nodeValue),
              registerSceneNode nodeValue nodeIdx (RootSceneNode (sceneNodeTypeOf nodeValue))
                (mSceneManager imp) imp))
       else Some (Inr (NodeId (length (createdNodes (mSceneManager imp))),
              registerSceneNode nodeValue nodeIdx (NodeId (length (createdNodes (mSceneManager imp))))
                ((mSceneManager imp)\<lparr>createdNodes := createdNodes (mSceneManager imp) @
                    [\<lparr>nodeType = sceneNodeTypeOf nodeValue, nodeParent = None\<rparr>]\<rparr>) imp)))"
    using assms
    by (auto simp: Let_def isRootNodeOf_def getRootSceneNode_def createSceneNode_def
        split: option.splits json.splits)
  show "importSceneNode (Suc (Suc fuel)) (JArray rootFlagNodes) (rootFlagNodes ! 0) 0 newImporter =
        Some (Inr (NodeId 0,
          \<lparr>mSceneManager =
             \<lparr>createdNodes = [\<lparr>nodeType = SCENE_DYNAMIC,
                                 nodeParent = Some (RootSceneNode SCENE_DYNAMIC)\<rparr>],
              nodeCalls = []\<rparr>,
           mCreatedSceneNodes = [1 \<mapsto> RootSceneNode SCENE_DYNAMIC, 0 \<mapsto> NodeId 0]\<rparr>))"
    by (simp add: rootFlagNodes_def importer_eval)
qed

theorem importSceneNode_own_parent_root_flag_witness:
  "nodeObject (rootFlagNodes ! 1) = Some (JObject [(''parent_id'', JUint 1)])
   \<and> parentIdxOf (JObject [(''parent_id'', JUint 1)]) 1 = 1
   \<and> importSceneNode (Suc 0) (JArray rootFlagNodes) (rootFlagNodes ! 1) 1 newImporter
      = Some (Inr (RootSceneNode SCENE_DYNAMIC,
           \<lparr>mSceneManager = \<lparr>createdNodes = [], nodeCalls = []\<rparr>,
            mCreatedSceneNodes = [1 \<mapsto> RootSceneNode SCENE_DYNAMIC]\<rparr>))
   \<and> nodeObject (specExampleNodes ! 1)
      = Some (JObject [(''parent_id'', JUint 1), (''is_root_node'', JBool True)])
   \<and> parentIdxOf (JObject [(''parent_id'', JUint 1), (''is_root_node'', JBool True)]) 1 = 1
   \<and> importSceneNode (Suc 0) (JArray specExampleNodes) (specExampleNodes ! 1) 1 newImporter
      = Some (Inr (NodeId 0,
           \<lparr>mSceneManager =
              \<lparr>createdNodes = [\<lparr>nodeType = SCENE_DYNAMIC, nodeParent = None\<rparr>], nodeCalls = []\<rparr>,
            mCreatedSceneNodes = [1 \<mapsto> NodeId 0]\<rparr>))"
proof -
  have h1: "nodeObject (rootFlagNodes ! 1) = Some (JObject [(''parent_id'', JUint 1)])"
    by (simp add: rootFlagNodes_def nodeObject_def)
  have h2: "parentIdxOf (JObject [(''parent_id'', JUint 1)]) 1 = 1"
    by (simp add: parentIdxOf_def)
  have g1: "nodeObject (specExampleNodes ! 1)
      = Some (JObject [(''parent_id'', JUint 1), (''is_root_node'', JBool True)])"
    by (simp add: specExampleNodes_def nodeObject_def)
  have g2: "parentIdxOf (JObject [(''parent_id'', JUint 1), (''is_root_node'', JBool True)]) 1 = 1"
    by (simp add: parentIdxOf_def)
  have r: "FindMember (rootFlagNodes ! 1) ''is_root_node'' = Some (JBool True)"
    "FindMember (specExampleNodes ! 1) ''is_root_node'' \<noteq> Some (JBool True)"
    by (simp_all add: rootFlagNodes_def specExampleNodes_def)
  from importSceneNode_own_parent_root_flag[OF h1 h2, of 0 "JArray rootFlagNodes" newImporter, THEN conjunct1]
    importSceneNode_own_parent_root_flag[OF g1 g2, of 0 "JArray specExampleNodes" newImporter, THEN conjunct1]
    h1 h2 g1 g2 r
  show ?thesis
    by (simp add: sceneNodeTypeOf_def registerSceneNode_def importNode_def newImporter_def)
qed

subsection \<open>The loop over the scene-node array\<close>

lemma importSceneNodes_array:
  "importSceneNodes fuel (JArray elements) imp = Some (Inl (RapidjsonAssertion ''IsObject()''))"
  by (simp add: importSceneNodes_def)

text \<open>
  C5 (forward and backward parent references). The claim is about the import of a
  \<open>scene_nodes\<close> array: afterwards every node is a child of its declared parent, wherever
  the parent lies in the array. \<^verbatim>\<open>importScene\<close> hands the array to \<open>importSceneNodes\<close>, whose
  loop asks it for the member iterators of an object. For the three-element array with a
  forward and a backward reference, and for the document that holds it, the import ends at
  the failed \<^verbatim>\<open>RAPIDJSON_ASSERT( IsObject() )\<close> before any element is read, whatever recursion
  depth is allowed: no scene node is created and nothing is attached. (\<open>importSceneNode\<close>
  reads the same value with the array accessors and does resolve the references.)
\<close>

theorem importSceneNodes_array_fails_assertion:
  "importSceneNodes fuel (JArray forwardBackwardNodes) newImporter
      = Some (Inl (RapidjsonAssertion ''IsObject()''))
   \<and> importSceneNodesOfDocument fuel forwardBackwardDocument newImporter
      = Some (Inl (RapidjsonAssertion ''IsObject()''))"
  by (simp add: importSceneNodes_def importSceneNodesOfDocument_def forwardBackwardDocument_def)

section \<open>HlmsCompute: results\<close>

subsection \<open>Property vectors do not depend on the insertion order\<close>

lemma set_setPropertyVec:
  "keysSorted ps \<Longrightarrow>
     set (setPropertyVec key v ps) = insert (key, v) {p \<in> set ps. fst p \<noteq> key}"
  unfolding keysSorted_def
  by (induction ps) (fastforce split: if_splits)+

lemma keysSorted_setPropertyVec:
  "keysSorted ps \<Longrightarrow> keysSorted (setPropertyVec key v ps)"
proof (induction ps)
  case Nil
  then show ?case by (simp add: keysSorted_def)
next
  case (Cons a ps)
  obtain k w where a: "a = (k, w)" by (cases a)
  from Cons.prems have tl: "keysSorted ps" and hd: "\<forall>p \<in> set ps. k < fst p"
    by (auto simp: keysSorted_def a)
  from Cons.IH[OF tl] have ih: "keysSorted (setPropertyVec key v ps)" .
  show ?case
  proof (cases "key < k")
    case True
    with Cons.prems show ?thesis by (auto simp: keysSorted_def a)
  next
    case False
    show ?thesis
    proof (cases "key = k")
      case True
      with Cons.prems show ?thesis by (auto simp: keysSorted_def a)
    next
      case ne: False
      with False have "k < key" by simp
      with hd ih set_setPropertyVec[OF tl, of key v] False ne show ?thesis
        by (auto simp: keysSorted_def a)
    qed
  qed
qed

lemma keysSorted_unique:
  assumes "keysSorted xs" "keysSorted ys" "set xs = set ys"
  shows "xs = ys"
  using assms
proof (induction xs arbitrary: ys)
  case Nil
  then show ?case by simp
next
  case (Cons x xs)
  from Cons.prems(3) obtain y ys' where ys: "ys = y # ys'" by (cases ys) auto
  from Cons.prems(1) have x_min: "\<forall>p \<in> set xs. fst x < fst p" and xs: "keysSorted xs"
    by (auto simp: keysSorted_def)
  from Cons.prems(2) have y_min: "\<forall>p \<in> set ys'. fst y < fst p" and ys': "keysSorted ys'"
    by (auto simp: keysSorted_def ys)
  have "x = y"
  proof (rule ccontr)
    assume ne: "x \<noteq> y"
    with Cons.prems(3) have "x \<in> set ys'" "y \<in> set xs" by (auto simp: ys)
    with x_min y_min have "fst y < fst x" "fst x < fst y" by auto
    then show False by simp
  qed
  moreover have "set xs = set ys'"
  proof -
    from x_min have "x \<notin> set xs" by auto
    moreover from y_min have "y \<notin> set ys'" by auto
    ultimately show ?thesis using Cons.prems(3) \<open>x = y\<close> by (auto simp: ys)
  qed
  ultimately show ?case using Cons.IH[OF xs ys'] by (simp add: ys)
qed

lemma foldl_setPropertyVec:
  assumes "keysSorted ps"
  shows "keysSorted (foldl (\<lambda>ps (k, v). setPropertyVec k v ps) ps as)
    \<and> (distinct (map fst as) \<longrightarrow>
         set (foldl (\<lambda>ps (k, v). setPropertyVec k v ps) ps as)
           = set as \<union> {p \<in> set ps. fst p \<notin> fst ` set as})"
  using assms
proof (induction as arbitrary: ps)
  case Nil
  then show ?case by simp
next
  case (Cons a as)
  obtain k v where a: "a = (k, v)" by (cases a)
  have s1: "keysSorted (setPropertyVec k v ps)"
    by (rule keysSorted_setPropertyVec[OF Cons.prems])
  from Cons.IH[OF s1] set_setPropertyVec[OF Cons.prems, of k v]
  show ?case by (auto simp: a rev_image_eqI)
qed

lemma keysSorted_propertiesOf: "keysSorted (propertiesOf as)"
  using foldl_setPropertyVec[of "[]" as] by (simp add: propertiesOf_def keysSorted_def)

lemma set_propertiesOf: "distinct (map fst as) \<Longrightarrow> set (propertiesOf as) = set as"
  using foldl_setPropertyVec[of "[]" as] by (simp add: propertiesOf_def keysSorted_def)

lemma propertiesOf_insertion_order:
  assumes "distinct (map fst as)" "mset as = mset bs"
  shows "propertiesOf as = propertiesOf bs"
proof -
  from assms(2) have "mset (map fst as) = mset (map fst bs)" by simp
  then have "distinct (map fst as) \<longleftrightarrow> distinct (map fst bs)"
    by (rule mset_eq_imp_distinct_iff)
  with assms(1) have d: "distinct (map fst bs)" by simp
  from assms(2) have "set as = set bs" by (rule mset_eq_setD)
  with set_propertiesOf[OF assms(1)] set_propertiesOf[OF d]
  have "set (propertiesOf as) = set (propertiesOf bs)" by simp
  with keysSorted_propertiesOf[of as] keysSorted_propertiesOf[of bs]
  show ?thesis by (rule keysSorted_unique)
qed

subsection \<open>What compileShader leaves alone\<close>

lemma setProperty_frame [simp]:
  "jobs (setProperty key v s) = jobs s"
  "mComputeShaderCache (setProperty key v s) = mComputeShaderCache s"
  "mCompiledShaderCache (setProperty key v s) = mCompiledShaderCache s"
  "programs (setProperty key v s) = programs s"
  "effects (setProperty key v s) = effects s"
  "mShaderFileExt (setProperty key v s) = mShaderFileExt s"
  by (simp_all add: setProperty_def)

lemma foldl_setProperty_frame [simp]:
  "jobs (foldl (\<lambda>st ext. setProperty ext v st) s exts) = jobs s"
  "mComputeShaderCache (foldl (\<lambda>st ext. setProperty ext v st) s exts) = mComputeShaderCache s"
  by (induction exts arbitrary: s) simp_all

lemma runParser_frame:
  assumes "runParser p inBuffer s = (e, outBuffer, s')"
  shows "jobs s' = jobs s" "mComputeShaderCache s' = mComputeShaderCache s"
    "mShaderFileExt s' = mShaderFileExt s"
  using assms by (auto simp: runParser_def split: prod.splits)

lemma processPieces_frame:
  "processPieces env files s = Inr s' \<Longrightarrow>
     jobs s' = jobs s \<and> mComputeShaderCache s' = mComputeShaderCache s"
  "processPieces env files s = Inl (f, s') \<Longrightarrow>
     jobs s' = jobs s \<and> mComputeShaderCache s' = mComputeShaderCache s"
proof (induction files arbitrary: s)
  case Nil
  { case 1 then show ?case by simp }
  { case 2 then show ?case by simp }
next
  case (Cons pf files)
  { case 1
    show ?case
    proof (cases "containsString pf (mShaderFileExt s)")
      case False
      with 1 Cons.IH(1)[of s] show ?thesis by simp
    next
      case True
      with 1 obtain inString where o: "openResource env pf = Some inString"
        by (auto split: option.splits)
      obtain e1 o1 s1 where p1: "runParser (parseMath env) inString s = (e1, o1, s1)" by (metis prod_cases3)
      obtain e2 o2 s2 where p2: "runParser (parseForEach env) o1 s1 = (e2, o2, s2)" by (metis prod_cases3)
      obtain e3 o3 s3 where p3: "runParser (parseProperties env) o2 s2 = (e3, o3, s3)" by (metis prod_cases3)
      obtain e4 o4 s4 where p4: "runParser (collectPieces env) o3 s3 = (e4, o4, s4)" by (metis prod_cases3)
      obtain e5 o5 s5 where p5: "runParser (parseCounter env) o4 s4 = (e5, o5, s5)" by (metis prod_cases3)
      from 1 True o p1 p2 p3 p4 p5 have "processPieces env files s5 = Inr s'" by simp
      from Cons.IH(1)[OF this] runParser_frame[OF p1] runParser_frame[OF p2] runParser_frame[OF p3]
        runParser_frame[OF p4] runParser_frame[OF p5]
      show ?thesis by simp
    qed }
  { case 2
    show ?case
    proof (cases "containsString pf (mShaderFileExt s)")
      case False
      with 2 Cons.IH(2)[of s] show ?thesis by simp
    next
      case True
      show ?thesis
      proof (cases "openResource env pf")
        case None
        with 2 True show ?thesis by simp
      next
        case (Some inString)
        obtain e1 o1 s1 where p1: "runParser (parseMath env) inString s = (e1, o1, s1)" by (metis prod_cases3)
        obtain e2 o2 s2 where p2: "runParser (parseForEach env) o1 s1 = (e2, o2, s2)" by (metis prod_cases3)
        obtain e3 o3 s3 where p3: "runParser (parseProperties env) o2 s2 = (e3, o3, s3)" by (metis prod_cases3)
        obtain e4 o4 s4 where p4: "runParser (collectPieces env) o3 s3 = (e4, o4, s4)" by (metis prod_cases3)
        obtain e5 o5 s5 where p5: "runParser (parseCounter env) o4 s4 = (e5, o5, s5)" by (metis prod_cases3)
        from 2 True Some p1 p2 p3 p4 p5 have "processPieces env files s5 = Inl (f, s')" by simp
        from Cons.IH(2)[OF this] runParser_frame[OF p1] runParser_frame[OF p2] runParser_frame[OF p3]
          runParser_frame[OF p4] runParser_frame[OF p5]
        show ?thesis by simp
      qed
    qed }
qed

lemma insertPiecesLoop_frame:
  "insertPiecesLoop env fuel e inS outS s = Some (e', inS', outS', s') \<Longrightarrow>
     jobs s' = jobs s \<and> mComputeShaderCache s' = mComputeShaderCache s"
proof (induction fuel arbitrary: e inS outS s)
  case 0
  then show ?case by (auto split: if_splits)
next
  case (Suc fuel)
  show ?case
  proof (cases "\<not> e \<and> (containsString outS ''@piece'' \<or> containsString outS ''@insertpiece'')")
    case False
    with Suc.prems show ?thesis by auto
  next
    case True
    obtain e1 o1 s1 where p1: "runParser (collectPieces env) outS s = (e1, o1, s1)" by (metis prod_cases3)
    obtain e2 o2 s2 where p2: "runParser (insertPieces env) o1 s1 = (e2, o2, s2)" by (metis prod_cases3)
    from Suc.prems True p1 p2
    have "insertPiecesLoop env fuel (e \<or> e1 \<or> e2) o1 o2 s2 = Some (e', inS', outS', s')" by simp
    from Suc.IH[OF this] runParser_frame[OF p1] runParser_frame[OF p2] show ?thesis by simp
  qed
qed

lemma untouched_refl [simp]: "untouched s s"
  by (simp add: untouched_def)

lemma untouched_trans: "untouched s s1 \<Longrightarrow> untouched s1 s2 \<Longrightarrow> untouched s s2"
  by (simp add: untouched_def)

lemma untouched_runParser: "runParser p inBuffer s = (e, outBuffer, s') \<Longrightarrow> untouched s s'"
  by (auto simp: untouched_def dest: runParser_frame)

lemma generateShader_untouched:
  assumes "generateShader env fuel jb finalHash s = Some r"
  shows "case r of Inl (f, s') \<Rightarrow> untouched s s' | Inr (x, s') \<Rightarrow> untouched s s'"
proof -
  let ?s1 = "foldl (\<lambda>st ext. setProperty ext 1 st) s (mRsSpecificExtensions s)"
  let ?s2 = "?s1\<lparr>mPieces := []\<rparr>"
  have u2: "untouched s ?s2" by (simp add: untouched_def)
  show ?thesis
  proof (cases "openResource env (mSourceFilename jb)")
    case None
    with assms u2 show ?thesis by (auto simp: generateShader_def Let_def)
  next
    case (Some fileText)
    let ?s3 = "if mShaderProfile ?s2 = ''glsl'' then setProperty GL3Plus 330 ?s2 else ?s2"
    let ?s4 = "setProperty HighQuality (if mHighQuality ?s3 then 1 else 0) ?s3"
    have u4: "untouched s ?s4" by (simp add: untouched_def)
    show ?thesis
    proof (cases "processPieces env (mIncludedPieceFiles jb) ?s4")
      case (Inl fs)
      obtain f s' where fs: "fs = (f, s')" by (cases fs)
      from processPieces_frame(2)[OF Inl[unfolded fs]] u4 have "untouched s s'"
        by (simp add: untouched_def)
      with assms Some Inl fs show ?thesis by (auto simp: generateShader_def Let_def)
    next
      case (Inr s5)
      from processPieces_frame(1)[OF Inr] u4 have u5: "untouched s s5"
        by (simp add: untouched_def)
      obtain e1 o1 s6 where p1: "runParser (parseMath env) fileText s5 = (e1, o1, s6)" by (metis prod_cases3)
      obtain e2 o2 s7 where p2: "runParser (parseForEach env) o1 s6 = (e2, o2, s7)" by (metis prod_cases3)
      obtain e3 o3 s8 where p3: "runParser (parseProperties env) o2 s7 = (e3, o3, s8)" by (metis prod_cases3)
      from u5 untouched_runParser[OF p1] untouched_runParser[OF p2] untouched_runParser[OF p3]
      have u8: "untouched s s8" by (simp add: untouched_def)
      from assms Some Inr p1 p2 p3 obtain e4 i4 o4 s9 where
        l: "insertPiecesLoop env fuel (e1 \<or> e2 \<or> e3) o2 o3 s8 = Some (e4, i4, o4, s9)"
        by (auto simp: generateShader_def Let_def split: option.splits)
      from insertPiecesLoop_frame[OF l] u8 have u9: "untouched s s9" by (simp add: untouched_def)
      obtain e5 i5 s10 where p5: "runParser (parseCounter env) o4 s9 = (e5, i5, s10)" by (metis prod_cases3)
      from u9 untouched_runParser[OF p5] have u10: "untouched s s10" by (simp add: untouched_def)
      from assms Some Inr p1 p2 p3 l p5 u10 show ?thesis
        by (auto simp: generateShader_def Let_def untouched_def)
    qed
  qed
qed

lemma lookupOrCreateProgram_untouched:
  "case lookupOrCreateProgram env jb finalHash outString dbg s of
     Inl (f, s') \<Rightarrow> untouched s s' | Inr (x, s') \<Rightarrow> untouched s s'"
  by (auto simp: lookupOrCreateProgram_def Let_def untouched_def split: option.splits)

lemma finishPso_untouched:
  "case finishPso shader s of
     Inl (f, s') \<Rightarrow> untouched s s' | Inr (x, s') \<Rightarrow> untouched s s'"
  by (auto simp: finishPso_def Let_def untouched_def)

lemma compileShader_untouched:
  assumes "compileShader env fuel jobPtr finalHash s = Some r"
  shows "case r of Inl (f, s') \<Rightarrow> untouched s s' | Inr (x, s') \<Rightarrow> untouched s s'"
proof (cases "generateShader env fuel (jobs s jobPtr) finalHash s")
  case None
  with assms show ?thesis by (simp add: compileShader_def)
next
  case (Some g)
  note gu = generateShader_untouched[OF Some]
  show ?thesis
  proof (cases g)
    case (Inl fs)
    with assms Some gu show ?thesis by (auto simp: compileShader_def)
  next
    case (Inr xs)
    obtain outString dbg s1 where xs: "xs = ((outString, dbg), s1)" by (cases xs) auto
    from gu Inr xs have u1: "untouched s s1" by simp
    let ?l = "lookupOrCreateProgram env (jobs s1 jobPtr) finalHash outString dbg s1"
    note lu = lookupOrCreateProgram_untouched[where env = env and jb = "jobs s1 jobPtr"
      and finalHash = finalHash and outString = outString and dbg = dbg and s = s1]
    show ?thesis
    proof (cases ?l)
      case (Inl fs)
      with assms Some Inr xs lu u1 show ?thesis
        by (auto simp: compileShader_def untouched_def)
    next
      case lr: (Inr ys)
      obtain shader s2 where ys: "ys = (shader, s2)" by (cases ys)
      from lu lr ys u1 have u2: "untouched s s2" by (simp add: untouched_def)
      note fu = finishPso_untouched[where shader = shader and s = s2]
      from assms Some Inr xs lr ys have "r = finishPso shader s2"
        by (simp add: compileShader_def)
      with fu u2 show ?thesis by (auto simp: untouched_def split: sum.splits)
    qed
  qed
qed

subsection \<open>The two outcomes of the cache search\<close>

lemma findPsoCache_Some_iff:
  "findPsoCache cache key = Some k \<longleftrightarrow>
     k < length cache \<and> setProperties (cache ! k) = setProperties key
       \<and> (\<forall>i<k. setProperties (cache ! i) \<noteq> setProperties key)"
proof (induction cache arbitrary: k)
  case Nil
  show ?case by simp
next
  case (Cons e cache)
  show ?case
  proof (cases "psoCacheEqual e key")
    case True
    then show ?thesis
      by (cases k) (auto simp: psoCacheEqual_def)
  next
    case False
    show ?thesis
    proof (cases k)
      case 0
      with False show ?thesis by (auto simp: psoCacheEqual_def)
    next
      case (Suc k')
      have "(\<forall>i<Suc k'. setProperties ((e # cache) ! i) \<noteq> setProperties key) \<longleftrightarrow>
            (\<forall>i<k'. setProperties (cache ! i) \<noteq> setProperties key)"
        using False by (auto simp: psoCacheEqual_def less_Suc_eq_0_disj)
      with False Suc Cons.IH[of k'] show ?thesis by auto
    qed
  qed
qed

lemma findPsoCache_None_iff:
  "findPsoCache cache key = None \<longleftrightarrow> (\<forall>e \<in> set cache. setProperties e \<noteq> setProperties key)"
  by (induction cache) (auto simp: psoCacheEqual_def)

lemma updateJob_frame [simp]:
  "mComputeShaderCache (updateJob jobPtr f s) = mComputeShaderCache s"
  "mCompiledShaderCache (updateJob jobPtr f s) = mCompiledShaderCache s"
  "programs (updateJob jobPtr f s) = programs s"
  "effects (updateJob jobPtr f s) = effects s"
  "mSetProperties (updateJob jobPtr f s) = mSetProperties s"
  "jobs (updateJob jobPtr f s) jobPtr = f (jobs s jobPtr)"
  "j \<noteq> jobPtr \<Longrightarrow> jobs (updateJob jobPtr f s) j = jobs s j"
  by (simp_all add: updateJob_def)

lemma ensurePso_in_bounds:
  "mPsoCacheHash (jobs s jobPtr) < length (mComputeShaderCache s) \<Longrightarrow>
     ensurePso env fuel jobPtr s = Some (Inr ((), s))"
  by (simp add: ensurePso_def)

lemma ensurePso_hit:
  assumes "length (mComputeShaderCache s) \<le> mPsoCacheHash (jobs s jobPtr)"
    and "P = job_mSetProperties (updateAutoProperties env (jobs s jobPtr))"
    and "findPsoCache (mComputeShaderCache s) \<lparr>job = jobPtr, setProperties = P, pso = unsetPso\<rparr> = Some k"
  shows "ensurePso env fuel jobPtr s =
     Some (Inr ((), updateJob jobPtr (\<lambda>j. (updateAutoProperties env j)\<lparr>mPsoCacheHash := k\<rparr>) s))"
  using assms(1,3) unfolding assms(2)
  by (simp add: ensurePso_def updateJob_def Let_def)

lemma ensurePso_miss:
  assumes oob: "length (mComputeShaderCache s) \<le> mPsoCacheHash (jobs s jobPtr)"
    and P: "P = job_mSetProperties (updateAutoProperties env (jobs s jobPtr))"
    and miss: "findPsoCache (mComputeShaderCache s) \<lparr>job = jobPtr, setProperties = P, pso = unsetPso\<rparr> = None"
    and s4: "s4 = (updateJob jobPtr (updateAutoProperties env) s)\<lparr>mSetProperties := P\<rparr>"
  shows "ensurePso env fuel jobPtr s =
     (case compileShader env fuel jobPtr (of_nat (length (mComputeShaderCache s))) s4 of
        None \<Rightarrow> None
      | Some (Inl failure) \<Rightarrow> Some (Inl failure)
      | Some (Inr (compiled, s5)) \<Rightarrow>
          Some (Inr ((), updateJob jobPtr (\<lambda>j. j\<lparr>mPsoCacheHash := length (mComputeShaderCache s)\<rparr>)
            (s5\<lparr>mComputeShaderCache := mComputeShaderCache s @
               [\<lparr>job = jobPtr, setProperties = P, pso = compiled\<rparr>]\<rparr>))))"
proof -
  let ?c = "compileShader env fuel jobPtr (of_nat (length (mComputeShaderCache s))) s4"
  have start: "ensurePso env fuel jobPtr s =
     (case ?c of
        None \<Rightarrow> None
      | Some (Inl failure) \<Rightarrow> Some (Inl failure)
      | Some (Inr (compiled, s5)) \<Rightarrow>
          (let s6 = s5\<lparr>mComputeShaderCache :=
                       mComputeShaderCache s5 @ [\<lparr>job = jobPtr, setProperties = [], pso = compiled\<rparr>]\<rparr>;
               s7 = s6\<lparr>mComputeShaderCache :=
                       (mComputeShaderCache s6)
                         [length (mComputeShaderCache s6) - 1 :=
                            (last (mComputeShaderCache s6))
                              \<lparr>setProperties := job_mSetProperties (jobs s6 jobPtr)\<rparr>]\<rparr>
           in Some (Inr ((), updateJob jobPtr
                (\<lambda>j. j\<lparr>mPsoCacheHash := length (mComputeShaderCache s7) - 1\<rparr>) s7))))"
    using oob miss unfolding P s4
    by (simp add: ensurePso_def updateJob_def Let_def split: option.split sum.split prod.split)
  show ?thesis
  proof (cases ?c)
    case None
    with start show ?thesis by simp
  next
    case (Some r)
    show ?thesis
    proof (cases r)
      case (Inl fs)
      with start Some show ?thesis by simp
    next
      case (Inr ps)
      obtain compiled s5 where ps: "ps = (compiled, s5)" by (cases ps)
      from compileShader_untouched[OF Some] Inr ps have u: "untouched s4 s5" by simp
      then have c5: "mComputeShaderCache s5 = mComputeShaderCache s"
        and j5: "jobs s5 = jobs s4"
        by (simp_all add: untouched_def s4)
      have jp: "job_mSetProperties (jobs s4 jobPtr) = P"
        by (simp add: s4 P)
      show ?thesis
        unfolding start Some Inr ps
        by (simp add: Let_def c5 j5 jp updateJob_def)
    qed
  qed
qed

subsection \<open>Evaluating compileShader on the test inputs\<close>

lemmas property_names =
  ThreadsPerGroupX_def ThreadsPerGroupY_def ThreadsPerGroupZ_def
  NumThreadGroupsX_def NumThreadGroupsY_def NumThreadGroupsZ_def
  DisableStage_def GL3Plus_def HighQuality_def Skeleton_def Pose_def

lemma containsString_set: "containsString str sub \<Longrightarrow> set sub \<subseteq> set str"
proof -
  assume "containsString str sub"
  then obtain i where "take (length sub) (drop i str) = sub"
    by (auto simp: containsString_def list_ex_iff)
  then have "set sub \<subseteq> set (drop i str)" by (metis set_take_subset)
  also have "\<dots> \<subseteq> set str" by (rule set_drop_subset)
  finally show ?thesis .
qed

lemma testSource_no_markers:
  "\<not> containsString testSource ''@piece''" "\<not> containsString testSource ''@insertpiece''"
  by (auto dest!: containsString_set simp: testSource_def)

lemma shapeProps_eval:
  "shapeProps x y z =
    [(''num_thread_groups_x'', 1), (''num_thread_groups_y'', 1), (''num_thread_groups_z'', 1),
     (''threads_per_group_x'', x), (''threads_per_group_y'', y), (''threads_per_group_z'', z)]"
  by (simp add: shapeProps_def propertiesOf_def property_names)

lemma insertPiecesLoop_done:
  "syntaxError \<or> \<not> (containsString outString ''@piece'' \<or> containsString outString ''@insertpiece'')
    \<Longrightarrow> insertPiecesLoop env fuel syntaxError inString outString s =
          Some (syntaxError, inString, outString, s)"
  by (cases fuel) auto

text \<open>With the test environment the template passes change nothing: the expanded text is
  the source file, and the properties gain the two render-system entries.\<close>

lemma generateShader_testEnv:
  assumes "mSourceFilename jb = ''Blur.glsl''" "mIncludedPieceFiles jb = []"
    and "mRsSpecificExtensions s = []" "mShaderProfile s = ''glsl''"
    and "\<not> mHighQuality s" "\<not> mDebugOutput s"
  shows "generateShader testEnv fuel jb finalHash s =
     Some (Inr ((testSource, []),
       s\<lparr>mSetProperties := setPropertyVec HighQuality 0 (setPropertyVec GL3Plus 330 (mSetProperties s)),
         mPieces := []\<rparr>))"
  using assms
  by (simp add: generateShader_def testEnv_def runParser_def
      passThrough_def setProperty_def testSource_no_markers Let_def insertPiecesLoop_done)

subsection \<open>The look-up in the compiled-shader cache\<close>

text \<open>
  The three ways the guarded block ends. With the disable flag clear, a hash that is not
  in the cache ends in the read at \<^verbatim>\<open>end()\<close> with nothing created; a hash that is in the
  cache gets a newly created program, which replaces the cached one.
\<close>

lemma lookupOrCreateProgram_not_cached:
  "getProperty s DisableStage = 0 \<Longrightarrow> mCompiledShaderCache s (hash128 env outString) = None \<Longrightarrow>
     lookupOrCreateProgram env jb finalHash outString dbg s = Inl (EndIteratorDereferenced, s)"
  by (simp add: lookupOrCreateProgram_def)

lemma lookupOrCreateProgram_cached:
  "getProperty s DisableStage = 0 \<Longrightarrow> mCompiledShaderCache s (hash128 env outString) = Some p \<Longrightarrow>
     lookupOrCreateProgram env jb finalHash outString dbg s =
       Inr (Some (length (programs s)),
            s\<lparr>programs := programs s @ [createProgram env jb finalHash outString dbg s],
              mCompiledShaderCache :=
                (mCompiledShaderCache s)(hash128 env outString \<mapsto> length (programs s))\<rparr>)"
  by (simp add: lookupOrCreateProgram_def Let_def)

lemma lookupOrCreateProgram_disabled:
  "getProperty s DisableStage \<noteq> 0 \<Longrightarrow>
     lookupOrCreateProgram env jb finalHash outString dbg s = Inr (None, s)"
  by (simp add: lookupOrCreateProgram_def)

lemma compiledProps_shape:
  "compiledProps (shapeProps x y z) =
    [(''GL3+'', 330), (''hlms_high_quality'', 0),
     (''num_thread_groups_x'', 1), (''num_thread_groups_y'', 1), (''num_thread_groups_z'', 1),
     (''threads_per_group_x'', x), (''threads_per_group_y'', y), (''threads_per_group_z'', z)]"
  by (simp add: compiledProps_def shapeProps_eval property_names)

lemma testHlms_sel [simp]:
  "mSetProperties (testHlms props js) = props" "mPieces (testHlms props js) = []"
  "mRsSpecificExtensions (testHlms props js) = []" "mShaderProfile (testHlms props js) = ''glsl''"
  "mHighQuality (testHlms props js) = False" "mDebugOutput (testHlms props js) = False"
  "mCompiledShaderCache (testHlms props js) = Map.empty"
  "mComputeShaderCache (testHlms props js) = []"
  "jobs (testHlms props js) = js" "programs (testHlms props js) = []"
  "effects (testHlms props js) = []" "mComputeShaderTarget (testHlms props js) = None"
  by (simp_all add: testHlms_def)

lemma testHlms_props [simp]:
  "(testHlms props js)\<lparr>mSetProperties := props'\<rparr> = testHlms props' js"
  "(testHlms props js)\<lparr>mPieces := []\<rparr> = testHlms props js"
  by (simp_all add: testHlms_def)

lemma testJob_sel [simp]:
  "mSourceFilename (testJob props index) = ''Blur.glsl''"
  "mIncludedPieceFiles (testJob props index) = []"
  "job_mSetProperties (testJob props index) = props"
  "mPsoCacheHash (testJob props index) = index"
  "mConstBuffers (testJob props index) = []" "mTextureSlots (testJob props index) = []"
  "mUavSlots (testJob props index) = []"
  by (simp_all add: testJob_def)

lemma getProperty_compiled_shape [simp]:
  "getPropertyVec DisableStage (compiledProps (shapeProps x y z)) = 0"
  "getPropertyVec Skeleton (compiledProps (shapeProps x y z)) = 0"
  "getPropertyVec Pose (compiledProps (shapeProps x y z)) = 0"
  by (simp_all add: getPropertyVec_def compiledProps_shape property_names)

lemma createProgram_test:
  "mShaderProfile s = ''glsl'' \<Longrightarrow> mComputeShaderTarget s = None \<Longrightarrow>
   mSetProperties s = compiledProps (shapeProps x y z) \<Longrightarrow>
     createProgram testEnv (testJob jp ji) 0 testSource [] s = testProgram"
  by (simp add: createProgram_def testProgram_def testEnv_def getProperty_def)

text \<open>
  C1 (program dedup: hit reuses, miss compiles and registers). The claim is the
  documented contract; the branches of the code are the other way round. First compile of the test
  job, compiled-shader cache empty: the look-up misses, and instead of creating and
  registering a program the call ends at the read of \<^verbatim>\<open>itor->second\<close> with
  \<^verbatim>\<open>itor == end()\<close>; no program exists afterwards and the cache is still empty. Same
  compile with the hash of the expanded text already cached for program \<open>0\<close>: the look-up
  hits, and instead of reusing program \<open>0\<close> the call creates a second program with the
  same source, returns it and overwrites the cache entry with it.
\<close>

theorem compileShader_cache_lookup_inverted:
  "compileShader testEnv 0 0 0 (testHlms (shapeProps 8 8 1) testJobs) =
     Some (Inl (EndIteratorDereferenced, testHlms (compiledProps (shapeProps 8 8 1)) testJobs))
   \<and> programs (testHlms (compiledProps (shapeProps 8 8 1)) testJobs) = []
   \<and> mCompiledShaderCache (testHlms (compiledProps (shapeProps 8 8 1)) testJobs) = Map.empty
   \<and> (case compileShader testEnv 0 0 0
            ((testHlms (shapeProps 8 8 1) testJobs)
               \<lparr>mCompiledShaderCache := [hash128 testEnv testSource \<mapsto> 0],
                programs := [testProgram]\<rparr>) of
         Some (Inr (compiled, s')) \<Rightarrow>
           computeShader compiled = Some 1
           \<and> programs s' = [testProgram, testProgram]
           \<and> mCompiledShaderCache s' (hash128 testEnv testSource) = Some 1
       | _ \<Rightarrow> False)"
proof -
  let ?s = "testHlms (shapeProps 8 8 1) testJobs"
  let ?s1 = "testHlms (compiledProps (shapeProps 8 8 1)) testJobs"
  have g: "generateShader testEnv 0 (testJobs 0) 0 ?s = Some (Inr ((testSource, []), ?s1))"
    by (subst generateShader_testEnv) (simp_all add: testJobs_def compiledProps_def)
  have l: "lookupOrCreateProgram testEnv (testJobs 0) 0 testSource [] ?s1 =
             Inl (EndIteratorDereferenced, ?s1)"
    by (rule lookupOrCreateProgram_not_cached) (simp_all add: getProperty_def)
  have miss: "compileShader testEnv 0 0 0 ?s = Some (Inl (EndIteratorDereferenced, ?s1))"
    by (simp add: compileShader_def g l)
  have hit: "(case compileShader testEnv 0 0 0
            ((testHlms (shapeProps 8 8 1) testJobs)
               \<lparr>mCompiledShaderCache := [hash128 testEnv testSource \<mapsto> 0],
                programs := [testProgram]\<rparr>) of
         Some (Inr (compiled, s')) \<Rightarrow>
           computeShader compiled = Some 1
           \<and> programs s' = [testProgram, testProgram]
           \<and> mCompiledShaderCache s' (hash128 testEnv testSource) = Some 1
       | _ \<Rightarrow> False)"
    by (simp add: compileShader_def generateShader_testEnv testJobs_def
        lookupOrCreateProgram_cached[where p = 0] getProperty_def setProperty_def
        compiledProps_def[symmetric] createProgram_test[where x = 8 and y = 8 and z = 1]
        finishPso_def Let_def)
      (simp add: getPropertyVec_def compiledProps_shape property_names)
  show ?thesis
    using miss hit by simp
qed

subsection \<open>The dispatch-shape check\<close>

lemma processPieces_failure:
  "processPieces env files s = Inl (f, s') \<Longrightarrow> \<exists>name. f = ResourceNotFound name"
proof (induction files arbitrary: s)
  case Nil
  then show ?case by simp
next
  case (Cons pf files)
  show ?case
  proof (cases "containsString pf (mShaderFileExt s)")
    case False
    with Cons show ?thesis by simp
  next
    case True
    show ?thesis
    proof (cases "openResource env pf")
      case None
      with Cons.prems True show ?thesis by auto
    next
      case (Some inString)
      with Cons.prems True Cons.IH show ?thesis
        by (auto split: prod.splits)
    qed
  qed
qed

lemma generateShader_failure:
  assumes "generateShader env fuel jb finalHash s = Some (Inl (f, s'))"
  shows "\<exists>name. f = ResourceNotFound name"
  using assms processPieces_failure
  by (fastforce simp: generateShader_def Let_def split: option.splits sum.splits prod.splits if_splits)

lemma lookupOrCreateProgram_failure:
  "lookupOrCreateProgram env jb finalHash outString dbg s = Inl (f, s') \<Longrightarrow>
     f = EndIteratorDereferenced"
  by (auto simp: lookupOrCreateProgram_def Let_def split: if_splits option.splits)

lemma finishPso_cases:
  "finishPso shader s =
    (if getProperty (setProperty DisableStage 0 s) ThreadsPerGroupX
          * getProperty (setProperty DisableStage 0 s) ThreadsPerGroupY
          * getProperty (setProperty DisableStage 0 s) ThreadsPerGroupZ = 0
        \<or> getProperty (setProperty DisableStage 0 s) NumThreadGroupsX
          * getProperty (setProperty DisableStage 0 s) NumThreadGroupsY
          * getProperty (setProperty DisableStage 0 s) NumThreadGroupsZ = 0
     then Inl (ERR_INVALIDPARAMS, setProperty DisableStage 0 s)
     else Inr (\<lparr>computeShader = shader,
                mThreadsPerGroup = [getProperty (setProperty DisableStage 0 s) ThreadsPerGroupX,
                                    getProperty (setProperty DisableStage 0 s) ThreadsPerGroupY,
                                    getProperty (setProperty DisableStage 0 s) ThreadsPerGroupZ],
                mNumThreadGroups = [getProperty (setProperty DisableStage 0 s) NumThreadGroupsX,
                                    getProperty (setProperty DisableStage 0 s) NumThreadGroupsY,
                                    getProperty (setProperty DisableStage 0 s) NumThreadGroupsZ]\<rparr>,
               (setProperty DisableStage 0 s)\<lparr>effects := effects s @
                 [HlmsComputePipelineStateObjectCreated
                   \<lparr>computeShader = shader,
                    mThreadsPerGroup = [getProperty (setProperty DisableStage 0 s) ThreadsPerGroupX,
                                        getProperty (setProperty DisableStage 0 s) ThreadsPerGroupY,
                                        getProperty (setProperty DisableStage 0 s) ThreadsPerGroupZ],
                    mNumThreadGroups = [getProperty (setProperty DisableStage 0 s) NumThreadGroupsX,
                                        getProperty (setProperty DisableStage 0 s) NumThreadGroupsY,
                                        getProperty (setProperty DisableStage 0 s) NumThreadGroupsZ]\<rparr>]\<rparr>))"
  by (simp add: finishPso_def Let_def)

lemma getProperty_effects [simp]: "getProperty (s\<lparr>effects := es\<rparr>) key = getProperty s key"
  by (simp add: getProperty_def)

text \<open>
  When the check raises: \<^verbatim>\<open>compileShader\<close> ends in \<open>ERR_INVALIDPARAMS\<close> exactly when the
  shader text was generated, the program stage returned, and the 32-bit product of the
  three threads-per-group values or of the three num-thread-groups values, read after the
  disable flag was reset, is zero. When it returns a PSO, the PSO carries those six values.
\<close>

lemma compileShader_shape_check_iff:
  "(compileShader env fuel jobPtr finalHash s = Some (Inl (ERR_INVALIDPARAMS, s')) \<longleftrightarrow>
     (\<exists>outString dbg s1 shader s2.
        generateShader env fuel (jobs s jobPtr) finalHash s = Some (Inr ((outString, dbg), s1))
        \<and> lookupOrCreateProgram env (jobs s1 jobPtr) finalHash outString dbg s1 = Inr (shader, s2)
        \<and> s' = setProperty DisableStage 0 s2
        \<and> (getProperty s' ThreadsPerGroupX * getProperty s' ThreadsPerGroupY
              * getProperty s' ThreadsPerGroupZ = 0
           \<or> getProperty s' NumThreadGroupsX * getProperty s' NumThreadGroupsY
              * getProperty s' NumThreadGroupsZ = 0)))
   \<and> (compileShader env fuel jobPtr finalHash s = Some (Inr (compiled, s'')) \<longrightarrow>
        mThreadsPerGroup compiled =
          [getProperty s'' ThreadsPerGroupX, getProperty s'' ThreadsPerGroupY,
           getProperty s'' ThreadsPerGroupZ]
        \<and> mNumThreadGroups compiled =
          [getProperty s'' NumThreadGroupsX, getProperty s'' NumThreadGroupsY,
           getProperty s'' NumThreadGroupsZ]
        \<and> getProperty s'' ThreadsPerGroupX * getProperty s'' ThreadsPerGroupY
              * getProperty s'' ThreadsPerGroupZ \<noteq> 0
        \<and> getProperty s'' NumThreadGroupsX * getProperty s'' NumThreadGroupsY
              * getProperty s'' NumThreadGroupsZ \<noteq> 0)"
proof (cases "generateShader env fuel (jobs s jobPtr) finalHash s")
  case None
  then show ?thesis by (simp add: compileShader_def)
next
  case (Some g)
  show ?thesis
  proof (cases g)
    case (Inl fs)
    obtain f st where fs: "fs = (f, st)" by (cases fs)
    from generateShader_failure[OF Some[unfolded Inl fs]] have "f \<noteq> ERR_INVALIDPARAMS" by auto
    with Some Inl fs show ?thesis by (simp add: compileShader_def)
  next
    case (Inr xs)
    obtain outString dbg s1 where xs: "xs = ((outString, dbg), s1)" by (cases xs) auto
    show ?thesis
    proof (cases "lookupOrCreateProgram env (jobs s1 jobPtr) finalHash outString dbg s1")
      case (Inl fs)
      obtain f st where fs: "fs = (f, st)" by (cases fs)
      from lookupOrCreateProgram_failure[OF Inl[unfolded fs]] have "f \<noteq> ERR_INVALIDPARAMS" by simp
      with Some Inr xs Inl fs show ?thesis by (simp add: compileShader_def)
    next
      case lr: (Inr ys)
      obtain shader s2 where ys: "ys = (shader, s2)" by (cases ys)
      have c: "compileShader env fuel jobPtr finalHash s = Some (finishPso shader s2)"
        by (simp add: compileShader_def Some Inr xs lr ys)
      show ?thesis
        unfolding c
        by (subst (1 2) finishPso_cases) (auto simp: Let_def Some Inr xs lr ys)
    qed
  qed
qed

lemma overflowProps_values:
  "getPropertyVec DisableStage (compiledProps overflowProps) = 1"
  "getPropertyVec ThreadsPerGroupX (setPropertyVec DisableStage 0 (compiledProps overflowProps)) = 65536"
  "getPropertyVec ThreadsPerGroupY (setPropertyVec DisableStage 0 (compiledProps overflowProps)) = 65536"
  "getPropertyVec ThreadsPerGroupZ (setPropertyVec DisableStage 0 (compiledProps overflowProps)) = 1"
  "getPropertyVec NumThreadGroupsX (setPropertyVec DisableStage 0 (compiledProps overflowProps)) = 1"
  "getPropertyVec NumThreadGroupsY (setPropertyVec DisableStage 0 (compiledProps overflowProps)) = 1"
  "getPropertyVec NumThreadGroupsZ (setPropertyVec DisableStage 0 (compiledProps overflowProps)) = 1"
  by (simp_all add: overflowProps_def compiledProps_def shapeProps_eval property_names getPropertyVec_def)

lemma compileShader_overflow:
  "compileShader testEnv 0 0 0 (testHlms overflowProps testJobs) =
     Some (Inl (ERR_INVALIDPARAMS,
       testHlms (setPropertyVec DisableStage 0 (compiledProps overflowProps)) testJobs))"
proof -
  have g: "generateShader testEnv 0 (testJobs 0) 0 (testHlms overflowProps testJobs) =
      Some (Inr ((testSource, []), testHlms (compiledProps overflowProps) testJobs))"
    by (subst generateShader_testEnv) (simp_all add: testJobs_def compiledProps_def)
  have l: "lookupOrCreateProgram testEnv (testJobs 0) 0 testSource []
        (testHlms (compiledProps overflowProps) testJobs) =
      Inr (None, testHlms (compiledProps overflowProps) testJobs)"
    by (rule lookupOrCreateProgram_disabled) (simp add: getProperty_def overflowProps_values)
  have f: "finishPso None (testHlms (compiledProps overflowProps) testJobs) =
      Inl (ERR_INVALIDPARAMS,
        testHlms (setPropertyVec DisableStage 0 (compiledProps overflowProps)) testJobs)"
    by (subst finishPso_cases) (simp add: setProperty_def getProperty_def overflowProps_values)
  show ?thesis
    by (simp add: compileShader_def g l f)
qed

text \<open>
  C7 (the dispatch-shape check). The check exists to reject a job that has not set its
  dispatch shape: its message says that the six values must be set, and the claim reads it
  as raising exactly when a product is zero. For \<open>65536 * 65536 * 1\<close> threads per group
  and one thread group all six values are set and none is zero; the products are \<open>2^32\<close>
  and \<open>1\<close>. Yet \<^verbatim>\<open>compileShader\<close> raises \<open>ERR_INVALIDPARAMS\<close>: the product is taken in
  \<^verbatim>\<open>uint32\<close> and wraps to zero.
\<close>

theorem compileShader_raises_on_wrapped_product:
  "compileShader testEnv 0 0 0 (testHlms overflowProps testJobs) =
     Some (Inl (ERR_INVALIDPARAMS,
       testHlms (setPropertyVec DisableStage 0 (compiledProps overflowProps)) testJobs))
   \<and> unat (getPropertyVec ThreadsPerGroupX (setPropertyVec DisableStage 0 (compiledProps overflowProps)))
     * unat (getPropertyVec ThreadsPerGroupY (setPropertyVec DisableStage 0 (compiledProps overflowProps)))
     * unat (getPropertyVec ThreadsPerGroupZ (setPropertyVec DisableStage 0 (compiledProps overflowProps)))
     = 4294967296
   \<and> unat (getPropertyVec NumThreadGroupsX (setPropertyVec DisableStage 0 (compiledProps overflowProps)))
     * unat (getPropertyVec NumThreadGroupsY (setPropertyVec DisableStage 0 (compiledProps overflowProps)))
     * unat (getPropertyVec NumThreadGroupsZ (setPropertyVec DisableStage 0 (compiledProps overflowProps)))
     = 1"
  by (simp add: compileShader_overflow overflowProps_values)

subsection \<open>clearShaderCache\<close>

lemma destroyCachedPsos_frame [simp]:
  "mComputeShaderCache (destroyCachedPsos entries s) = mComputeShaderCache s"
  "mCompiledShaderCache (destroyCachedPsos entries s) = mCompiledShaderCache s"
  "programs (destroyCachedPsos entries s) = programs s"
  "mSetProperties (destroyCachedPsos entries s) = mSetProperties s"
  by (induction entries arbitrary: s) simp_all

lemma destroyCachedPsos_effects:
  "effects (destroyCachedPsos entries s) =
     effects s @ map (\<lambda>e. HlmsComputePipelineStateObjectDestroyed (pso e)) entries"
  by (induction entries arbitrary: s) simp_all

lemma destroyCachedPsos_jobs:
  "jobs (destroyCachedPsos entries s) j =
     (if j \<in> job ` set entries then (jobs s j)\<lparr>mPsoCacheHash := invalidPsoCacheHash\<rparr>
      else jobs s j)"
  by (induction entries arbitrary: s) auto

lemma clearShaderCache_other_jobs:
  "j \<notin> job ` set (mComputeShaderCache s) \<Longrightarrow> jobs (clearShaderCache s) j = jobs s j"
  by (simp add: clearShaderCache_def Let_def destroyCachedPsos_jobs)

text \<open>
  What \<^verbatim>\<open>clearShaderCache\<close> does: every job that a cache entry points to gets the invalid
  sentinel; every cached PSO is passed, in cache order, to the render system's
  \<^verbatim>\<open>_hlmsComputePipelineStateObjectDestroyed\<close>, followed by the base class's
  \<^verbatim>\<open>clearShaderCache\<close>; and both caches are emptied. A job that no entry points to is left
  as it was (\<open>clearShaderCache_other_jobs\<close>).
\<close>

lemma clearShaderCache_entry_jobs:
  "(\<forall>entry \<in> set (mComputeShaderCache s).
       mPsoCacheHash (jobs (clearShaderCache s) (job entry)) = invalidPsoCacheHash)
   \<and> effects (clearShaderCache s) =
       effects s @ map (\<lambda>e. HlmsComputePipelineStateObjectDestroyed (pso e)) (mComputeShaderCache s)
         @ [HlmsClearShaderCache]
   \<and> mComputeShaderCache (clearShaderCache s) = []
   \<and> mCompiledShaderCache (clearShaderCache s) = Map.empty
   \<and> (\<forall>jobPtr. \<not> mPsoCacheHash (jobs (clearShaderCache s) jobPtr)
                    < length (mComputeShaderCache (clearShaderCache s)))"
  by (simp add: clearShaderCache_def Let_def destroyCachedPsos_jobs destroyCachedPsos_effects)

subsection \<open>dispatch\<close>

lemma issueDispatch_frame [simp]:
  "jobs (issueDispatch jobPtr s) = jobs s"
  "mComputeShaderCache (issueDispatch jobPtr s) = mComputeShaderCache s"
  "mCompiledShaderCache (issueDispatch jobPtr s) = mCompiledShaderCache s"
  "programs (issueDispatch jobPtr s) = programs s"
  by (simp_all add: issueDispatch_def Let_def)

lemma dispatch_ensurePso:
  "dispatch env fuel jobPtr s =
    (case ensurePso env fuel jobPtr s of
       None \<Rightarrow> None
     | Some (Inl failure) \<Rightarrow> Some (Inl failure)
     | Some (Inr (u, s1)) \<Rightarrow> Some (Inr ((), issueDispatch jobPtr s1)))"
  by (simp add: dispatch_def split: option.split sum.split prod.split)

text \<open>
  The cache search of \<open>dispatch\<close>. Let the job's cached index be out of bounds, let \<open>s0\<close>
  be the state after \<^verbatim>\<open>_updateAutoProperties\<close> and \<open>P\<close> the job's property set in it. If
  \<open>k\<close> is the first cache entry whose property set equals \<open>P\<close>, whichever job it was
  compiled for, then \<open>dispatch\<close> compiles nothing and changes nothing but the job's index,
  which becomes \<open>k\<close>, before it binds and dispatches. If no entry's property set equals
  \<open>P\<close>, the outcome is that of \<^verbatim>\<open>compileShader\<close> on \<open>P\<close>: a PSO it returns is appended
  with the job and \<open>P\<close>, and the job's index becomes that of the new last entry.
\<close>

lemma dispatch_cache_search:
  assumes oob: "length (mComputeShaderCache s) \<le> mPsoCacheHash (jobs s jobPtr)"
    and P: "P = job_mSetProperties (updateAutoProperties env (jobs s jobPtr))"
    and s0: "s0 = updateJob jobPtr (updateAutoProperties env) s"
  shows
   "(\<forall>k. k < length (mComputeShaderCache s) \<and> setProperties (mComputeShaderCache s ! k) = P
          \<and> (\<forall>i<k. setProperties (mComputeShaderCache s ! i) \<noteq> P) \<longrightarrow>
        dispatch env fuel jobPtr s =
          Some (Inr ((), issueDispatch jobPtr (updateJob jobPtr (\<lambda>j. j\<lparr>mPsoCacheHash := k\<rparr>) s0))))
    \<and> ((\<forall>entry \<in> set (mComputeShaderCache s). setProperties entry \<noteq> P) \<longrightarrow>
        dispatch env fuel jobPtr s =
          (case compileShader env fuel jobPtr (of_nat (length (mComputeShaderCache s)))
                  (s0\<lparr>mSetProperties := P\<rparr>) of
             None \<Rightarrow> None
           | Some (Inl failure) \<Rightarrow> Some (Inl failure)
           | Some (Inr (compiled, s5)) \<Rightarrow>
               Some (Inr ((), issueDispatch jobPtr
                 (updateJob jobPtr (\<lambda>j. j\<lparr>mPsoCacheHash := length (mComputeShaderCache s)\<rparr>)
                   (s5\<lparr>mComputeShaderCache := mComputeShaderCache s @
                        [\<lparr>job = jobPtr, setProperties = P, pso = compiled\<rparr>]\<rparr>))))))
    \<and> (\<forall>as bs. distinct (map fst as) \<and> mset as = mset bs \<longrightarrow> propertiesOf as = propertiesOf bs)"
proof (intro conjI allI impI)
  fix k
  assume k: "k < length (mComputeShaderCache s) \<and> setProperties (mComputeShaderCache s ! k) = P
          \<and> (\<forall>i<k. setProperties (mComputeShaderCache s ! i) \<noteq> P)"
  then have "findPsoCache (mComputeShaderCache s) \<lparr>job = jobPtr, setProperties = P, pso = unsetPso\<rparr> = Some k"
    by (simp add: findPsoCache_Some_iff)
  from ensurePso_hit[OF oob P this]
  show "dispatch env fuel jobPtr s =
          Some (Inr ((), issueDispatch jobPtr (updateJob jobPtr (\<lambda>j. j\<lparr>mPsoCacheHash := k\<rparr>) s0)))"
    by (simp add: dispatch_ensurePso s0 updateJob_def)
next
  assume "\<forall>entry \<in> set (mComputeShaderCache s). setProperties entry \<noteq> P"
  then have "findPsoCache (mComputeShaderCache s) \<lparr>job = jobPtr, setProperties = P, pso = unsetPso\<rparr> = None"
    by (simp add: findPsoCache_None_iff)
  from ensurePso_miss[OF oob P this refl]
  show "dispatch env fuel jobPtr s =
          (case compileShader env fuel jobPtr (of_nat (length (mComputeShaderCache s)))
                  (s0\<lparr>mSetProperties := P\<rparr>) of
             None \<Rightarrow> None
           | Some (Inl failure) \<Rightarrow> Some (Inl failure)
           | Some (Inr (compiled, s5)) \<Rightarrow>
               Some (Inr ((), issueDispatch jobPtr
                 (updateJob jobPtr (\<lambda>j. j\<lparr>mPsoCacheHash := length (mComputeShaderCache s)\<rparr>)
                   (s5\<lparr>mComputeShaderCache := mComputeShaderCache s @
                        [\<lparr>job = jobPtr, setProperties = P, pso = compiled\<rparr>]\<rparr>)))))"
    by (simp add: dispatch_ensurePso s0 split: option.split sum.split prod.split)
next
  fix as bs :: "(IdString \<times> int32) list"
  assume "distinct (map fst as) \<and> mset as = mset bs"
  then show "propertiesOf as = propertiesOf bs"
    by (simp add: propertiesOf_insertion_order)
qed

text \<open>
  C10, as amended. \<open>dispatch\<close> leaves the job's property set as \<^verbatim>\<open>_updateAutoProperties\<close>
  produced it: the set borrowed for the cache search is swapped back at the start of the
  hit branch and at the start of the miss branch, before the compile. So on every normal
  return after an out-of-bounds index the job's set equals that value, the job's index is
  in bounds and the cache entry it points to stores an equal set of its own; when the
  compile on the miss path raises, the job's set equals that value as well; and with an
  index in bounds \<open>dispatch\<close> touches neither the jobs nor the cache.
\<close>

theorem dispatch_job_properties_restored:
  assumes run: "dispatch env fuel jobPtr s = Some r"
    and P: "P = job_mSetProperties (updateAutoProperties env (jobs s jobPtr))"
  shows "case r of
      Inl (failure, s') \<Rightarrow>
        length (mComputeShaderCache s) \<le> mPsoCacheHash (jobs s jobPtr)
        \<and> job_mSetProperties (jobs s' jobPtr) = P
    | Inr (u, s') \<Rightarrow>
        (if length (mComputeShaderCache s) \<le> mPsoCacheHash (jobs s jobPtr)
         then job_mSetProperties (jobs s' jobPtr) = P
              \<and> mPsoCacheHash (jobs s' jobPtr) < length (mComputeShaderCache s')
              \<and> setProperties (mComputeShaderCache s' ! mPsoCacheHash (jobs s' jobPtr)) = P
         else jobs s' = jobs s \<and> mComputeShaderCache s' = mComputeShaderCache s)"
proof (cases "length (mComputeShaderCache s) \<le> mPsoCacheHash (jobs s jobPtr)")
  case False
  with run show ?thesis
    by (auto simp: dispatch_ensurePso ensurePso_in_bounds)
next
  case oob: True
  let ?key = "\<lparr>job = jobPtr, setProperties = P, pso = unsetPso\<rparr>"
  show ?thesis
  proof (cases "findPsoCache (mComputeShaderCache s) ?key")
    case (Some k)
    from Some have k: "k < length (mComputeShaderCache s)" "setProperties (mComputeShaderCache s ! k) = P"
      by (simp_all add: findPsoCache_Some_iff)
    from run ensurePso_hit[OF oob P Some] k oob show ?thesis
      by (auto simp: dispatch_ensurePso P)
  next
    case None
    let ?s4 = "(updateJob jobPtr (updateAutoProperties env) s)\<lparr>mSetProperties := P\<rparr>"
    let ?c = "compileShader env fuel jobPtr (of_nat (length (mComputeShaderCache s))) ?s4"
    note e = ensurePso_miss[OF oob P None refl, of fuel]
    have jp: "job_mSetProperties (jobs ?s4 jobPtr) = P" by (simp add: P)
    show ?thesis
    proof (cases ?c)
      case cn: None
      with run e show ?thesis by (simp add: dispatch_ensurePso)
    next
      case (Some c)
      show ?thesis
      proof (cases c)
        case (Inl fs)
        obtain f st where fs: "fs = (f, st)" by (cases fs)
        from compileShader_untouched[OF Some] Inl fs have "jobs st = jobs ?s4"
          by (simp add: untouched_def)
        with run e Some Inl fs jp oob show ?thesis
          by (auto simp: dispatch_ensurePso)
      next
        case (Inr ps)
        obtain compiled s5 where ps: "ps = (compiled, s5)" by (cases ps)
        from compileShader_untouched[OF Some] Inr ps have "jobs s5 = jobs ?s4"
          by (simp add: untouched_def)
        with run e Some Inr ps jp oob show ?thesis
          by (auto simp: dispatch_ensurePso)
      qed
    qed
  qed
qed

lemma reorderedHlms_facts:
  "length (mComputeShaderCache reorderedHlms) \<le> mPsoCacheHash (jobs reorderedHlms 3)"
  "setProperties (mComputeShaderCache reorderedHlms ! 0)
     = job_mSetProperties (updateAutoProperties testEnv (jobs reorderedHlms 3))"
  "job (mComputeShaderCache reorderedHlms ! 0) \<noteq> 3"
  by (simp_all add: reorderedHlms_def invalidPsoCacheHash_def testEnv_def propertiesOf_def)

lemma reorderedHlms_dispatch:
  "dispatch testEnv 0 3 reorderedHlms = Some (Inr ((), afterSharedDispatch))"
  using reorderedHlms_facts(1)
  by (simp add: dispatch_ensurePso ensurePso_def Let_def reorderedHlms_def testEnv_def
      updateJob_def propertiesOf_def psoCacheEqual_def testJob_def afterSharedDispatch_def)

lemma afterSharedDispatch_facts:
  "mComputeShaderCache afterSharedDispatch =
     [\<lparr>job = 7, setProperties = propertiesOf [(''b'', 2), (''a'', 1)],
       pso = \<lparr>computeShader = None, mThreadsPerGroup = [8, 8, 1], mNumThreadGroups = [1, 1, 1]\<rparr>\<rparr>]"
  "mPsoCacheHash (jobs afterSharedDispatch 3) = 0"
  "effects afterSharedDispatch =
     [SetComputePso \<lparr>computeShader = None, mThreadsPerGroup = [8, 8, 1], mNumThreadGroups = [1, 1, 1]\<rparr>,
      Dispatch \<lparr>computeShader = None, mThreadsPerGroup = [8, 8, 1], mNumThreadGroups = [1, 1, 1]\<rparr>]"
  by (simp_all add: afterSharedDispatch_def reorderedHlms_def issueDispatch_def Let_def
      bindConstBuffers_def bindTextureSlots_def bindUavSlots_def testEnv_def updateJob_def)

theorem dispatch_job_properties_restored_witness:
  "dispatch testEnv 0 3 reorderedHlms = Some (Inr ((), afterSharedDispatch))
   \<and> length (mComputeShaderCache reorderedHlms) \<le> mPsoCacheHash (jobs reorderedHlms 3)
   \<and> job_mSetProperties (jobs afterSharedDispatch 3)
      = job_mSetProperties (updateAutoProperties testEnv (jobs reorderedHlms 3))
   \<and> setProperties (mComputeShaderCache afterSharedDispatch ! mPsoCacheHash (jobs afterSharedDispatch 3))
      = job_mSetProperties (updateAutoProperties testEnv (jobs reorderedHlms 3))"
  using dispatch_job_properties_restored[OF reorderedHlms_dispatch refl] reorderedHlms_facts(1) reorderedHlms_dispatch
  by simp

lemma disabledShapeProps_values:
  "getPropertyVec DisableStage (compiledProps disabledShapeProps) = 1"
  "getPropertyVec ThreadsPerGroupX (setPropertyVec DisableStage 0 (compiledProps disabledShapeProps)) = 8"
  "getPropertyVec ThreadsPerGroupY (setPropertyVec DisableStage 0 (compiledProps disabledShapeProps)) = 8"
  "getPropertyVec ThreadsPerGroupZ (setPropertyVec DisableStage 0 (compiledProps disabledShapeProps)) = 1"
  "getPropertyVec NumThreadGroupsX (setPropertyVec DisableStage 0 (compiledProps disabledShapeProps)) = 1"
  "getPropertyVec NumThreadGroupsY (setPropertyVec DisableStage 0 (compiledProps disabledShapeProps)) = 1"
  "getPropertyVec NumThreadGroupsZ (setPropertyVec DisableStage 0 (compiledProps disabledShapeProps)) = 1"
  by (simp_all add: disabledShapeProps_def compiledProps_def shapeProps_eval property_names getPropertyVec_def)

lemma compileShader_disabled_state:
  assumes "mSourceFilename (jobs s jobPtr) = ''Blur.glsl''" "mIncludedPieceFiles (jobs s jobPtr) = []"
    and "mRsSpecificExtensions s = []" "mShaderProfile s = ''glsl''"
    and "\<not> mHighQuality s" "\<not> mDebugOutput s" "mSetProperties s = disabledShapeProps"
  shows "\<exists>s5. compileShader testEnv fuel jobPtr finalHash s = Some (Inr (shapePso, s5))
     \<and> effects s5 = effects s @ [HlmsComputePipelineStateObjectCreated shapePso]
     \<and> programs s5 = programs s \<and> mCompiledShaderCache s5 = mCompiledShaderCache s"
proof -
  let ?s1 = "s\<lparr>mSetProperties := compiledProps disabledShapeProps, mPieces := []\<rparr>"
  have g: "generateShader testEnv fuel (jobs s jobPtr) finalHash s = Some (Inr ((testSource, []), ?s1))"
    by (subst generateShader_testEnv) (simp_all add: assms compiledProps_def)
  have l: "lookupOrCreateProgram testEnv (jobs s jobPtr) finalHash testSource [] ?s1 = Inr (None, ?s1)"
    by (rule lookupOrCreateProgram_disabled) (simp add: getProperty_def disabledShapeProps_values)
  have f: "finishPso None ?s1 =
      Inr (shapePso, (setProperty DisableStage 0 ?s1)\<lparr>effects := effects ?s1 @
                 [HlmsComputePipelineStateObjectCreated shapePso]\<rparr>)"
    by (subst finishPso_cases) (simp add: setProperty_def getProperty_def disabledShapeProps_values shapePso_def)
  show ?thesis
    by (simp add: compileShader_def g l f setProperty_def)
qed

lemma compileShader_enabled_miss_state:
  assumes "mSourceFilename (jobs s jobPtr) = ''Blur.glsl''" "mIncludedPieceFiles (jobs s jobPtr) = []"
    and "mRsSpecificExtensions s = []" "mShaderProfile s = ''glsl''"
    and "\<not> mHighQuality s" "\<not> mDebugOutput s" "mSetProperties s = shapeProps 8 8 1"
    and "mCompiledShaderCache s = Map.empty"
  shows "compileShader testEnv fuel jobPtr finalHash s =
     Some (Inl (EndIteratorDereferenced,
       s\<lparr>mSetProperties := compiledProps (shapeProps 8 8 1), mPieces := []\<rparr>))"
proof -
  let ?s1 = "s\<lparr>mSetProperties := compiledProps (shapeProps 8 8 1), mPieces := []\<rparr>"
  have g: "generateShader testEnv fuel (jobs s jobPtr) finalHash s = Some (Inr ((testSource, []), ?s1))"
    by (subst generateShader_testEnv) (simp_all add: assms compiledProps_def)
  have l: "lookupOrCreateProgram testEnv (jobs s jobPtr) finalHash testSource [] ?s1 =
             Inl (EndIteratorDereferenced, ?s1)"
    by (rule lookupOrCreateProgram_not_cached) (simp_all add: getProperty_def assms)
  show ?thesis
    by (simp add: compileShader_def g l)
qed


lemma updateJob_settings [simp]:
  "mRsSpecificExtensions (updateJob jobPtr f s) = mRsSpecificExtensions s"
  "mShaderProfile (updateJob jobPtr f s) = mShaderProfile s"
  "mHighQuality (updateJob jobPtr f s) = mHighQuality s"
  "mDebugOutput (updateJob jobPtr f s) = mDebugOutput s"
  "mPieces (updateJob jobPtr f s) = mPieces s"
  by (simp_all add: updateJob_def)

lemma missHlms_facts:
  "mComputeShaderCache missHlms = []" "mCompiledShaderCache missHlms = Map.empty"
  "programs missHlms = []"
  "mPsoCacheHash (jobs missHlms 0) = invalidPsoCacheHash"
  "getPropertyVec DisableStage (job_mSetProperties (jobs missHlms 0)) = 0"
  by (simp_all add: missHlms_def getPropertyVec_def shapeProps_eval property_names)

text \<open>
  C2 (cache look-up by value; a miss compiles and appends). The claim says that on a miss
  a new PSO is compiled and appended and the job's index is set to the new last entry.
  Job \<open>0\<close> holds a fully set shape, its stage is not disabled, it was never dispatched,
  and both caches are empty, so the search misses. \<open>dispatch\<close> then calls
  \<^verbatim>\<open>compileShader\<close>, which ends at the read of \<^verbatim>\<open>itor->second\<close> with \<^verbatim>\<open>itor == end()\<close>: no
  program is created, no PSO is created or appended, and the job's index is still the
  invalid sentinel.
\<close>

theorem dispatch_miss_compiles_nothing:
  "(case dispatch testEnv fuel 0 missHlms of
      Some (Inl (failure, s')) \<Rightarrow>
        failure = EndIteratorDereferenced
        \<and> mComputeShaderCache s' = [] \<and> programs s' = [] \<and> effects s' = []
        \<and> mPsoCacheHash (jobs s' 0) = invalidPsoCacheHash
    | _ \<Rightarrow> False)
   \<and> mComputeShaderCache missHlms = [] \<and> mCompiledShaderCache missHlms = Map.empty
   \<and> mPsoCacheHash (jobs missHlms 0) = invalidPsoCacheHash
   \<and> getPropertyVec DisableStage (job_mSetProperties (jobs missHlms 0)) = 0"
proof -
  let ?s4 = "(updateJob 0 (updateAutoProperties testEnv) missHlms)\<lparr>mSetProperties := shapeProps 8 8 1\<rparr>"
  have oob: "length (mComputeShaderCache missHlms) \<le> mPsoCacheHash (jobs missHlms 0)"
    by (simp add: missHlms_def)
  have P: "shapeProps 8 8 1 = job_mSetProperties (updateAutoProperties testEnv (jobs missHlms 0))"
    by (simp add: missHlms_def testEnv_def)
  have miss: "findPsoCache (mComputeShaderCache missHlms)
      \<lparr>job = 0, setProperties = shapeProps 8 8 1, pso = unsetPso\<rparr> = None"
    by (simp add: missHlms_def)
  have c: "compileShader testEnv fuel 0 (of_nat (length (mComputeShaderCache missHlms))) ?s4 =
      Some (Inl (EndIteratorDereferenced,
        ?s4\<lparr>mSetProperties := compiledProps (shapeProps 8 8 1), mPieces := []\<rparr>))"
    by (rule compileShader_enabled_miss_state) (simp_all add: missHlms_def testEnv_def)
  have "dispatch testEnv fuel 0 missHlms =
      Some (Inl (EndIteratorDereferenced,
        ?s4\<lparr>mSetProperties := compiledProps (shapeProps 8 8 1), mPieces := []\<rparr>))"
    by (simp add: dispatch_ensurePso ensurePso_miss[OF oob P miss refl] c)
  then show ?thesis
    by (simp add: missHlms_facts) (simp add: missHlms_def testEnv_def)
qed


lemma sharingHlms_first_dispatch:
  "\<exists>s1. dispatch testEnv fuel 7 sharingHlms = Some (Inr ((), s1))
     \<and> mComputeShaderCache s1 = [\<lparr>job = 7, setProperties = disabledShapeProps, pso = shapePso\<rparr>]
     \<and> jobs s1 = (\<lambda>jobPtr. testJob disabledShapeProps (if jobPtr = 7 then 0 else invalidPsoCacheHash))"
proof -
  let ?s4 = "(updateJob 7 (updateAutoProperties testEnv) sharingHlms)\<lparr>mSetProperties := disabledShapeProps\<rparr>"
  have oob: "length (mComputeShaderCache sharingHlms) \<le> mPsoCacheHash (jobs sharingHlms 7)"
    by (simp add: sharingHlms_def)
  have P: "disabledShapeProps = job_mSetProperties (updateAutoProperties testEnv (jobs sharingHlms 7))"
    by (simp add: sharingHlms_def testEnv_def)
  have miss: "findPsoCache (mComputeShaderCache sharingHlms)
      \<lparr>job = 7, setProperties = disabledShapeProps, pso = unsetPso\<rparr> = None"
    by (simp add: sharingHlms_def)
  have "\<exists>s5. compileShader testEnv fuel 7 (of_nat (length (mComputeShaderCache sharingHlms))) ?s4
        = Some (Inr (shapePso, s5))
     \<and> effects s5 = effects ?s4 @ [HlmsComputePipelineStateObjectCreated shapePso]
     \<and> programs s5 = programs ?s4 \<and> mCompiledShaderCache s5 = mCompiledShaderCache ?s4"
    by (rule compileShader_disabled_state) (simp_all add: sharingHlms_def testEnv_def)
  then obtain s5 where c: "compileShader testEnv fuel 7 (of_nat (length (mComputeShaderCache sharingHlms))) ?s4
        = Some (Inr (shapePso, s5))" by blast
  from compileShader_untouched[OF c] have j5: "jobs s5 = jobs ?s4"
    by (simp add: untouched_def)
  have c5: "mComputeShaderCache sharingHlms = []" by (simp add: sharingHlms_def)
  let ?s6 = "updateJob 7 (\<lambda>j. j\<lparr>mPsoCacheHash := length (mComputeShaderCache sharingHlms)\<rparr>)
            (s5\<lparr>mComputeShaderCache := mComputeShaderCache sharingHlms @
               [\<lparr>job = 7, setProperties = disabledShapeProps, pso = shapePso\<rparr>]\<rparr>)"
  have e: "ensurePso testEnv fuel 7 sharingHlms = Some (Inr ((), ?s6))"
    unfolding ensurePso_miss[OF oob P miss refl] c by simp
  have d: "dispatch testEnv fuel 7 sharingHlms = Some (Inr ((), issueDispatch 7 ?s6))"
    unfolding dispatch_ensurePso e by simp
  have "mComputeShaderCache (issueDispatch 7 ?s6) =
      [\<lparr>job = 7, setProperties = disabledShapeProps, pso = shapePso\<rparr>]"
    by (simp add: c5)
  moreover have "jobs (issueDispatch 7 ?s6) =
      (\<lambda>jobPtr. testJob disabledShapeProps (if jobPtr = 7 then 0 else invalidPsoCacheHash))"
    by (auto simp: c5 updateJob_def j5 sharingHlms_def testEnv_def testJob_def fun_eq_iff)
  ultimately show ?thesis using d by blast
qed

lemma sharing_second_dispatch:
  assumes c: "mComputeShaderCache s1 = [\<lparr>job = 7, setProperties = disabledShapeProps, pso = shapePso\<rparr>]"
    and j: "jobs s1 = (\<lambda>jobPtr. testJob disabledShapeProps (if jobPtr = 7 then 0 else invalidPsoCacheHash))"
  shows "\<exists>s2. dispatch testEnv fuel 3 s1 = Some (Inr ((), s2))
     \<and> mComputeShaderCache s2 = mComputeShaderCache s1
     \<and> jobs s2 = (\<lambda>jobPtr. testJob disabledShapeProps
                       (if jobPtr = 7 \<or> jobPtr = 3 then 0 else invalidPsoCacheHash))"
proof -
  have oob: "length (mComputeShaderCache s1) \<le> mPsoCacheHash (jobs s1 3)"
    by (simp add: c j invalidPsoCacheHash_def)
  have P: "disabledShapeProps = job_mSetProperties (updateAutoProperties testEnv (jobs s1 3))"
    by (simp add: j testEnv_def)
  have hit: "findPsoCache (mComputeShaderCache s1)
      \<lparr>job = 3, setProperties = disabledShapeProps, pso = unsetPso\<rparr> = Some 0"
    by (simp add: c psoCacheEqual_def)
  let ?s3 = "updateJob 3 (\<lambda>j. (updateAutoProperties testEnv j)\<lparr>mPsoCacheHash := 0\<rparr>) s1"
  have d: "dispatch testEnv fuel 3 s1 = Some (Inr ((), issueDispatch 3 ?s3))"
    unfolding dispatch_ensurePso ensurePso_hit[OF oob P hit] by simp
  have "mComputeShaderCache (issueDispatch 3 ?s3) = mComputeShaderCache s1"
    by simp
  moreover have "jobs (issueDispatch 3 ?s3) =
      (\<lambda>jobPtr. testJob disabledShapeProps
                       (if jobPtr = 7 \<or> jobPtr = 3 then 0 else invalidPsoCacheHash))"
    by (auto simp: updateJob_def j testEnv_def testJob_def fun_eq_iff)
  ultimately show ?thesis using d by blast
qed

text \<open>
  C3 (a clear resets every dispatched job). All jobs hold the same property set. Job \<open>7\<close>
  is dispatched first: the search misses, its PSO is compiled and appended as entry \<open>0\<close>,
  which points to job \<open>7\<close>. Job \<open>3\<close> is dispatched next: the search finds entry \<open>0\<close>, and
  the index of job \<open>3\<close> becomes \<open>0\<close> as well. Both jobs have been dispatched and both
  indices refer to a cache entry. After \<^verbatim>\<open>clearShaderCache\<close> job \<open>7\<close> holds the invalid
  sentinel, but job \<open>3\<close> still holds \<open>0\<close>: the loop resets only the job each entry points
  to.
\<close>

theorem clearShaderCache_keeps_sharing_job_index:
  "(case dispatch testEnv 0 7 sharingHlms of
      Some (Inr (u, s1)) \<Rightarrow>
        (case dispatch testEnv 0 3 s1 of
           Some (Inr (u', s2)) \<Rightarrow>
             mComputeShaderCache s2 =
               [\<lparr>job = 7, setProperties = disabledShapeProps, pso = shapePso\<rparr>]
             \<and> mPsoCacheHash (jobs s2 7) = 0
             \<and> mPsoCacheHash (jobs s2 3) = 0
             \<and> mComputeShaderCache (clearShaderCache s2) = []
             \<and> mPsoCacheHash (jobs (clearShaderCache s2) 7) = invalidPsoCacheHash
             \<and> mPsoCacheHash (jobs (clearShaderCache s2) 3) = 0
         | _ \<Rightarrow> False)
    | _ \<Rightarrow> False)
   \<and> invalidPsoCacheHash \<noteq> 0"
proof -
  from sharingHlms_first_dispatch[of 0] obtain s1 where
    d1: "dispatch testEnv 0 7 sharingHlms = Some (Inr ((), s1))"
    and c1: "mComputeShaderCache s1 = [\<lparr>job = 7, setProperties = disabledShapeProps, pso = shapePso\<rparr>]"
    and j1: "jobs s1 = (\<lambda>jobPtr. testJob disabledShapeProps (if jobPtr = 7 then 0 else invalidPsoCacheHash))"
    by blast
  from sharing_second_dispatch[OF c1 j1, of 0] obtain s2 where
    d2: "dispatch testEnv 0 3 s1 = Some (Inr ((), s2))"
    and c2: "mComputeShaderCache s2 = mComputeShaderCache s1"
    and j2: "jobs s2 = (\<lambda>jobPtr. testJob disabledShapeProps
                       (if jobPtr = 7 \<or> jobPtr = 3 then 0 else invalidPsoCacheHash))"
    by blast
  have k3: "jobs (clearShaderCache s2) 3 = jobs s2 3"
    by (rule clearShaderCache_other_jobs) (simp add: c2 c1)
  have k7: "mPsoCacheHash (jobs (clearShaderCache s2) 7) = invalidPsoCacheHash"
    by (simp add: clearShaderCache_def Let_def destroyCachedPsos_jobs c2 c1)
  have e: "mComputeShaderCache (clearShaderCache s2) = []"
    by (simp add: clearShaderCache_def Let_def)
  show ?thesis
    by (simp add: d1 d2 c2 c1 k3 k7 e j2 invalidPsoCacheHash_def)
qed

lemma compileShader_overflow_state:
  assumes "mSourceFilename (jobs s jobPtr) = ''Blur.glsl''" "mIncludedPieceFiles (jobs s jobPtr) = []"
    and "mRsSpecificExtensions s = []" "mShaderProfile s = ''glsl''"
    and "\<not> mHighQuality s" "\<not> mDebugOutput s" "mSetProperties s = overflowProps"
  shows "compileShader testEnv fuel jobPtr finalHash s =
     Some (Inl (ERR_INVALIDPARAMS,
       s\<lparr>mSetProperties := setPropertyVec DisableStage 0 (compiledProps overflowProps),
         mPieces := []\<rparr>))"
proof -
  let ?s1 = "s\<lparr>mSetProperties := compiledProps overflowProps, mPieces := []\<rparr>"
  have g: "generateShader testEnv fuel (jobs s jobPtr) finalHash s = Some (Inr ((testSource, []), ?s1))"
    by (subst generateShader_testEnv) (simp_all add: assms compiledProps_def)
  have l: "lookupOrCreateProgram testEnv (jobs s jobPtr) finalHash testSource [] ?s1 = Inr (None, ?s1)"
    by (rule lookupOrCreateProgram_disabled) (simp add: getProperty_def overflowProps_values)
  have f: "finishPso None ?s1 =
      Inl (ERR_INVALIDPARAMS,
        s\<lparr>mSetProperties := setPropertyVec DisableStage 0 (compiledProps overflowProps),
          mPieces := []\<rparr>)"
    by (subst finishPso_cases) (simp add: setProperty_def getProperty_def overflowProps_values)
  show ?thesis
    by (simp add: compileShader_def g l f)
qed

lemma overflowProps_nonempty: "overflowProps \<noteq> []"
  by (simp add: overflowProps_def shapeProps_eval property_names)

text \<open>
  C10, counterexample. The claim has the compile fail before the swap-back and leave the
  job with the borrowed, empty set. Here the compile on the miss path raises
  \<open>ERR_INVALIDPARAMS\<close>, and the job holds its own, non-empty property set afterwards.
\<close>

theorem dispatch_failed_compile_keeps_job_properties:
  "(case dispatch testEnv 0 0 failingHlms of
      Some (Inl (failure, s')) \<Rightarrow>
        failure = ERR_INVALIDPARAMS \<and> job_mSetProperties (jobs s' 0) = overflowProps
    | _ \<Rightarrow> False)
   \<and> overflowProps \<noteq> []"
  by (simp add: dispatch_ensurePso ensurePso_def Let_def failingHlms_def updateJob_def
        invalidPsoCacheHash_def testEnv_def[THEN arg_cong[of _ _ updateAutoProperties]]
        compileShader_overflow_state overflowProps_nonempty)

end
